theory Spec2Isabelle
  imports Complex_Main "HOL-Library.Log_Nat"
begin

section \<open>Data model of the PocketIDClient custom resource\<close>

text \<open>
  The declarations follow \<open>crd/pocketidclient/index.ts\<close>. An optional field of the
  TypeScript interfaces is an \<open>option\<close>; a JavaScript number that the operator only uses as
  a counter or a generation is an \<open>int\<close>; a JavaScript string is a \<open>string\<close>, one
  character per code unit (code units below 256).
\<close>

datatype Phase = Pending | Ready | Failed | Retrying | Removing | RemovalFailed

datatype ConditionStatus = StatusTrue | StatusFalse | StatusUnknown

record Condition =
  c_type :: string
  c_status :: ConditionStatus
  c_observedGeneration :: "int option"
  c_lastTransitionTime :: string
  c_reason :: string
  c_message :: string

record SecretTemplate =
  t_name :: "string option"
  t_data :: "(string \<times> string) list option"

record PocketIDClientStatus =
  observedGeneration :: "int option"
  conditions :: "Condition list option"
  phase :: "Phase option"
  retryAttempt :: "int option"
  nextRetryTime :: "string option"
  clientId :: "string option"
  secretName :: "string option"

record Metadata =
  namespace :: string
  name :: string
  uid :: "string option"
  generation :: "int option"
  deletionTimestamp :: "string option"
  finalizers :: "string list option"

text \<open>
  The spec is \<open>dto_OidcClientCreateDto\<close> extended with \<open>secretTemplate\<close>; the fields of the
  DTO are the ones \<open>reconcile\<close> reads.
\<close>

record PocketIDClientSpec =
  s_id :: "string option"
  s_name :: "string option"
  callbackURLs :: "string list option"
  logoutCallbackURLs :: "string list option"
  isPublic :: "bool option"
  pkceEnabled :: "bool option"
  isGroupRestricted :: "bool option"
  launchURL :: "string option"
  requiresReauthentication :: "bool option"
  secretTemplate :: "SecretTemplate option"

record PocketIDClient =
  metadata :: Metadata
  spec :: "PocketIDClientSpec option"
  status :: "PocketIDClientStatus option"

definition emptyStatus :: PocketIDClientStatus where
  "emptyStatus = \<lparr>observedGeneration = None, conditions = None, phase = None,
     retryAttempt = None, nextRetryTime = None, clientId = None, secretName = None\<rparr>"

definition FINALIZER :: string where
  "FINALIZER = ''pocketidclient.jeffrescignano.io/finalizer''"

text \<open>JavaScript truthiness of an optional string: \<open>undefined\<close> and \<open>""\<close> are falsy.\<close>

definition truthy :: "string option \<Rightarrow> bool" where
  "truthy x = (case x of None \<Rightarrow> False | Some v \<Rightarrow> v \<noteq> [])"

text \<open>\<open>a || b\<close> on an optional string and a string.\<close>

definition orElse :: "string option \<Rightarrow> string \<Rightarrow> string" where
  "orElse x d = (case x of None \<Rightarrow> d | Some v \<Rightarrow> if v = [] then d else v)"

text \<open>\<open>client.status?.field\<close>.\<close>

definition statusField :: "(PocketIDClientStatus \<Rightarrow> 'a option) \<Rightarrow> PocketIDClient \<Rightarrow> 'a option" where
  "statusField f client = (case status client of None \<Rightarrow> None | Some st \<Rightarrow> f st)"

text \<open>\<open>client.status?.retryAttempt || 0\<close>: \<open>undefined\<close> and \<open>0\<close> both give 0.\<close>

definition retryAttemptOrZero :: "PocketIDClient \<Rightarrow> int" where
  "retryAttemptOrZero client = (case statusField retryAttempt client of None \<Rightarrow> 0 | Some n \<Rightarrow> n)"

text \<open>
  The decimal text of an integer, as a template literal prints a counter (a number below
  \<open>2^53\<close>).
\<close>

fun showNat :: "nat \<Rightarrow> string" where
  "showNat n = (if n < 10 then [''0123456789'' ! n] else showNat (n div 10) @ [''0123456789'' ! (n mod 10)])"

declare showNat.simps [simp del]

definition showInt :: "int \<Rightarrow> string" where
  "showInt i = (if i < 0 then CHR ''-'' # showNat (nat (- i)) else showNat (nat i))"

section \<open>The outside world: calls, outcomes, and the state of one run\<close>

record OidcClientDto =
  dto_id :: "string option"
  dto_name :: string
  dto_callbackURLs :: "string list option"
  dto_logoutCallbackURLs :: "string list option"
  dto_isPublic :: "bool option"
  dto_pkceEnabled :: "bool option"
  dto_isGroupRestricted :: "bool option"
  dto_launchURL :: "string option"
  dto_requiresReauthentication :: "bool option"

text \<open>
  The Secret that \<open>upsertSecret\<close> applies. Its constant fields (\<open>apiVersion\<close>, \<open>kind\<close>,
  \<open>type\<close>, and \<open>controller\<close>, \<open>blockOwnerDeletion\<close> of the owner reference) are left out.
\<close>

record Secret =
  sec_name :: string
  sec_namespace :: string
  sec_ownerName :: string
  sec_ownerUid :: "string option"
  sec_stringData :: "(string \<times> string) list"

text \<open>
  Every request the operator sends: to the Kubernetes API (status patch, apply of the
  finalizer list, apply and delete of the Secret) and to the PocketID API.
\<close>

datatype call =
    PatchStatus string string PocketIDClientStatus
  | ApplyFinalizers string string "string list"
  | ApplySecret Secret
  | DeleteSecret string string
  | GetApiOidcClients1 string
  | PutApiOidcClients string OidcClientDto
  | PostApiOidcClients OidcClientDto
  | PostApiOidcClientsSecret string
  | DeleteApiOidcClients string

text \<open>
  A thrown value: the \<open>status\<close> property that \<open>deleteSecret\<close> inspects and the text that
  \<open>err instanceof Error ? err.message : String(err)\<close> yields.
\<close>

record JsError =
  e_status :: "nat option"
  e_message :: string

text \<open>
  A request returns (the string is the \<open>secret\<close> of the response of
  \<open>postApiOidcClientsSecret\<close>, and ignored for the other requests) or throws.
\<close>

datatype outcome = Returned string | Threw JsError

text \<open>
  The world decides the outcome of the request sent after \<open>k\<close> earlier requests, and what
  \<open>Date.now()\<close> and \<open>Math.random()\<close> return at that moment. \<open>parseDate\<close> is
  \<open>new Date(s).getTime()\<close> (\<open>None\<close> for \<open>NaN\<close>), \<open>toISOString\<close> is its inverse direction;
  both belong to the platform and are parameters here.
\<close>

record World =
  respond :: "nat \<Rightarrow> call \<Rightarrow> outcome"
  now :: "nat \<Rightarrow> int"
  random :: "nat \<Rightarrow> real"
  parseDate :: "string \<Rightarrow> int option"
  toISOString :: "int \<Rightarrow> string"

datatype LogLevel = Debug | Info | Warn | Error

text \<open>
  The state of a run: the requests sent so far with their outcomes, the log lines, the
  process-wide map \<open>lastGenByUid\<close>, and the array \<open>client.status.conditions\<close> of the
  resource object at hand, which \<open>addCondition\<close> updates in place (\<open>None\<close> when the object
  has no such array: then \<open>addCondition\<close> works on a fresh array each time).
\<close>

record State =
  trace :: "(call \<times> outcome) list"
  logs :: "(LogLevel \<times> string) list"
  lastGenByUid :: "string \<Rightarrow> int option"
  conds :: "Condition list option"

type_synonym 'a prog = "State \<Rightarrow> (JsError + 'a) \<times> State"

definition ret :: "'a \<Rightarrow> 'a prog" where
  "ret x = (\<lambda>s. (Inr x, s))"

definition throw :: "JsError \<Rightarrow> 'a prog" where
  "throw e = (\<lambda>s. (Inl e, s))"

definition andThen :: "'a prog \<Rightarrow> ('a \<Rightarrow> 'b prog) \<Rightarrow> 'b prog" where
  "andThen m f = (\<lambda>s. case m s of (Inl e, s') \<Rightarrow> (Inl e, s') | (Inr x, s') \<Rightarrow> f x s')"

definition seq :: "'a prog \<Rightarrow> 'b prog \<Rightarrow> 'b prog" where
  "seq m k = andThen m (\<lambda>_. k)"

definition tryCatch :: "'a prog \<Rightarrow> (JsError \<Rightarrow> 'a prog) \<Rightarrow> 'a prog" where
  "tryCatch m h = (\<lambda>s. case m s of (Inl e, s') \<Rightarrow> h e s' | (Inr x, s') \<Rightarrow> (Inr x, s'))"

definition perform :: "World \<Rightarrow> call \<Rightarrow> string prog" where
  "perform w c = (\<lambda>s.
     (let r = respond w (length (trace s)) c;
          s' = s\<lparr>trace := trace s @ [(c, r)]\<rparr>
      in case r of Returned v \<Rightarrow> (Inr v, s') | Threw e \<Rightarrow> (Inl e, s')))"

definition logMsg :: "LogLevel \<Rightarrow> string \<Rightarrow> unit prog" where
  "logMsg lvl msg = (\<lambda>s. (Inr (), s\<lparr>logs := logs s @ [(lvl, msg)]\<rparr>))"

definition dateNow :: "World \<Rightarrow> int prog" where
  "dateNow w = (\<lambda>s. (Inr (now w (length (trace s))), s))"

definition mathRandom :: "World \<Rightarrow> real prog" where
  "mathRandom w = (\<lambda>s. (Inr (random w (length (trace s))), s))"

definition getConds :: "Condition list option prog" where
  "getConds = (\<lambda>s. (Inr (conds s), s))"

definition setConds :: "Condition list option \<Rightarrow> unit prog" where
  "setConds cs = (\<lambda>s. (Inr (), s\<lparr>conds := cs\<rparr>))"

definition getLastGen :: "string \<Rightarrow> int option prog" where
  "getLastGen u = (\<lambda>s. (Inr (lastGenByUid s u), s))"

definition setLastGen :: "string \<Rightarrow> int \<Rightarrow> unit prog" where
  "setLastGen u g = (\<lambda>s. (Inr (), s\<lparr>lastGenByUid := (lastGenByUid s)(u \<mapsto> g)\<rparr>))"

section \<open>Backoff policy\<close>

definition baseDelayMs :: real where
  "baseDelayMs = 5000"

definition maxDelayMs :: real where
  "maxDelayMs = 300000"

definition maxRetries :: int where
  "maxRetries = 10"

text \<open>
  The numbers of the backoff computation are IEEE 754 doubles: the result of an arithmetic
  operation is the exact result rounded to the nearest number with 53 significant bits, a
  tie going to the neighbour whose last bit is even. \<open>roundHalfEven\<close> rounds to the nearest
  integer in that way; \<open>binade x\<close>, for \<open>x > 0\<close>, is the exponent \<open>e\<close> with
  \<open>2^e \<le> x < 2^(e+1)\<close>; \<open>roundDouble x\<close> is the nearest multiple of \<open>2^(e-52)\<close>. The
  limits of the exponent of a double are not part of \<open>roundDouble\<close>: where the computation
  leaves them, the function that computes says so.
\<close>

definition roundHalfEven :: "real \<Rightarrow> int" where
  "roundHalfEven y =
     (let f = \<lfloor>y\<rfloor>; d = y - of_int f
      in if d < 1/2 then f else if 1/2 < d then f + 1 else if even f then f else f + 1)"

definition binade :: "real \<Rightarrow> int" where
  "binade x = (if 1 \<le> x then bitlen \<lfloor>x\<rfloor> - 1 else - bitlen (\<lceil>1 / x\<rceil> - 1))"

definition roundDouble :: "real \<Rightarrow> real" where
  "roundDouble x =
     (if x = 0 then 0
      else (let ulp = power_int 2 (binade \<bar>x\<bar> - 52)
            in ulp * of_int (roundHalfEven (x / ulp))))"

text \<open>
  \<open>calculateBackoffDelay\<close>, in milliseconds. The first argument is the number that
  \<open>Math.random()\<close> returned. \<open>Math.pow(2, retryAttempt - 1)\<close> is a power of two and exact as
  long as it is a double; below \<open>2^(-1074)\<close> it is 0. From \<open>retryAttempt - 1 = 1012\<close> on,
  \<open>5000 * 2^(retryAttempt - 1)\<close> is beyond the largest double, \<open>exponentialDelay\<close> is
  \<open>Infinity\<close>, and \<open>Math.min\<close> returns \<open>maxDelayMs\<close>. The product, the jitter and the sum are
  each rounded.
\<close>

definition calculateBackoffDelay :: "real \<Rightarrow> int \<Rightarrow> real" where
  "calculateBackoffDelay rnd attempt =
     (if 1012 \<le> attempt - 1 then maxDelayMs
      else (let exponentialDelay =
                  roundDouble (baseDelayMs *
                    (if attempt - 1 < - 1074 then 0 else power_int 2 (attempt - 1)));
                jitter = roundDouble (rnd * 1000)
            in min (roundDouble (exponentialDelay + jitter)) maxDelayMs))"

section \<open>Condition ledger\<close>

text \<open>\<open>Array.prototype.findIndex\<close>: the first index whose element satisfies the predicate, or -1.\<close>

fun findIndex :: "('a \<Rightarrow> bool) \<Rightarrow> 'a list \<Rightarrow> int" where
  "findIndex P [] = -1"
| "findIndex P (x # xs) =
     (if P x then 0 else (let i = findIndex P xs in if i < 0 then -1 else i + 1))"

text \<open>
  The list update in the body of \<open>addCondition\<close>:
  \<open>idx = conditions.findIndex(c => c.type === condition.type);
  if (idx >= 0) conditions[idx] = condition; else conditions.push(condition)\<close>.
\<close>

definition upsertCondition :: "Condition list \<Rightarrow> Condition \<Rightarrow> Condition list" where
  "upsertCondition cs condition =
     (let idx = findIndex (\<lambda>c. c_type c = c_type condition) cs
      in if idx \<ge> 0 then cs[nat idx := condition] else cs @ [condition])"


section \<open>Template renderer\<close>

record TemplateContext =
  ClientID :: string
  ClientSecret :: string
  ClientName :: string
  Namespace :: string
  ResourceName :: string

text \<open>The class \<open>\s\<close> of a JavaScript regular expression, for code units below 256.\<close>

definition isWhiteSpace :: "char \<Rightarrow> bool" where
  "isWhiteSpace c = (c \<in> set [CHR 0x09, CHR 0x0A, CHR 0x0B, CHR 0x0C, CHR 0x0D, CHR 0x20, CHR 0xA0])"

fun stripPrefix :: "string \<Rightarrow> string \<Rightarrow> string option" where
  "stripPrefix [] s = Some s"
| "stripPrefix (p # ps) [] = None"
| "stripPrefix (p # ps) (c # cs) = (if p = c then stripPrefix ps cs else None)"

text \<open>
  A match of \<open>/\{\{\s*\.Field\s*\}\}/\<close> at the start of \<open>s\<close>: the length of the match.
  Neither \<open>.\<close> nor \<open>}\<close> is white space, so the greedy \<open>\s*\<close> never backtracks.
\<close>

definition matchPlaceholder :: "string \<Rightarrow> string \<Rightarrow> nat option" where
  "matchPlaceholder field s =
     (case stripPrefix ''{{'' s of
        None \<Rightarrow> None
      | Some r1 \<Rightarrow>
          (case stripPrefix (CHR ''.'' # field) (dropWhile isWhiteSpace r1) of
             None \<Rightarrow> None
           | Some r2 \<Rightarrow>
               (case stripPrefix ''}}'' (dropWhile isWhiteSpace r2) of
                  None \<Rightarrow> None
                | Some r3 \<Rightarrow> Some (length s - length r3))))"

text \<open>
  The replacement text of \<open>String.prototype.replace\<close> when the second argument is a string
  (the GetSubstitution operation of ECMAScript) for a pattern with no capture group:
  \<open>$$\<close> is a dollar sign, \<open>$&\<close> the matched text, \<open>$`\<close> the text before the match,
  \<open>$'\<close> the text after it; every other character, a lone dollar sign too, is copied.
\<close>

fun getSubstitution :: "string \<Rightarrow> string \<Rightarrow> string \<Rightarrow> string \<Rightarrow> string" where
  "getSubstitution matched scanned following [] = []"
| "getSubstitution matched scanned following [c] = [c]"
| "getSubstitution matched scanned following (c # d # rest) =
     (if c = CHR ''$'' \<and> d = CHR ''$'' then CHR ''$'' # getSubstitution matched scanned following rest
      else if c = CHR ''$'' \<and> d = CHR ''&'' then matched @ getSubstitution matched scanned following rest
      else if c = CHR ''$'' \<and> d = CHR 0x60 then scanned @ getSubstitution matched scanned following rest
      else if c = CHR ''$'' \<and> d = CHR 0x27 then following @ getSubstitution matched scanned following rest
      else c # getSubstitution matched scanned following (d # rest))"

text \<open>
  \<open>s.replace(/\{\{\s*\.Field\s*\}\}/g, replacement)\<close>, scanning \<open>s\<close> from the left;
  \<open>scanned\<close> is the part of the subject already scanned. After a match the scan goes on
  behind it (behind the next character, had the match been empty).
\<close>

function replaceGlobal :: "string \<Rightarrow> string \<Rightarrow> string \<Rightarrow> string \<Rightarrow> string" where
  "replaceGlobal field replacement scanned [] = []"
| "replaceGlobal field replacement scanned (c # cs) =
     (case matchPlaceholder field (c # cs) of
        None \<Rightarrow> c # replaceGlobal field replacement (scanned @ [c]) cs
      | Some n \<Rightarrow>
          getSubstitution (take n (c # cs)) scanned (drop n (c # cs)) replacement @
          (if n = 0 then c # replaceGlobal field replacement (scanned @ [c]) cs
           else replaceGlobal field replacement (scanned @ take n (c # cs)) (drop n (c # cs))))"
  by pat_completeness auto
termination
  by (relation "measure (\<lambda>(field, replacement, scanned, s). length s)") auto

definition renderTemplate :: "string \<Rightarrow> TemplateContext \<Rightarrow> string" where
  "renderTemplate template context =
     replaceGlobal ''ResourceName'' (ResourceName context) []
       (replaceGlobal ''Namespace'' (Namespace context) []
         (replaceGlobal ''ClientName'' (ClientName context) []
           (replaceGlobal ''ClientSecret'' (ClientSecret context) []
             (replaceGlobal ''ClientID'' (ClientID context) [] template))))"

section \<open>The operator\<close>

text \<open>
  The functions below follow the operator's source one by one. \<open>await m; k\<close> is
  \<open>seq m k\<close>, \<open>try { m } catch (err) { h }\<close> is \<open>tryCatch m h\<close>. \<open>configureApiClient\<close> only
  copies two environment variables into the REST client's configuration and sends nothing;
  it is left out.
\<close>

definition shouldSkipDueToBackoff :: "World \<Rightarrow> PocketIDClient \<Rightarrow> bool prog" where
  "shouldSkipDueToBackoff w client =
     (if \<not> truthy (statusField nextRetryTime client) \<or> statusField phase client = Some Ready
      then ret False
      else andThen (dateNow w) (\<lambda>t.
        case parseDate w (orElse (statusField nextRetryTime client) []) of
          None \<Rightarrow> ret False
        | Some nextRetry \<Rightarrow>
            if t < nextRetry
            then seq (logMsg Debug ''Skipping reconciliation due to backoff'') (ret True)
            else ret False))"

definition createCondition ::
  "World \<Rightarrow> string \<Rightarrow> ConditionStatus \<Rightarrow> string \<Rightarrow> string \<Rightarrow> int option \<Rightarrow> Condition prog" where
  "createCondition w ty st rsn msg gen =
     andThen (dateNow w) (\<lambda>t.
       ret \<lparr>c_type = ty, c_status = st, c_observedGeneration = gen,
            c_lastTransitionTime = toISOString w t, c_reason = rsn, c_message = msg\<rparr>)"

text \<open>
  \<open>updateStatus(client, status)\<close>. The partial status \<open>status\<close> is given as the function that
  writes its keys over a status, which is what the spread \<open>{...currentStatus, ...status}\<close>
  does with it (a key whose value is \<open>undefined\<close> is written too).
\<close>

definition updateStatus ::
  "World \<Rightarrow> PocketIDClient \<Rightarrow> (PocketIDClientStatus \<Rightarrow> PocketIDClientStatus) \<Rightarrow> unit prog" where
  "updateStatus w client upd =
     andThen getConds (\<lambda>live.
       (let currentStatus = (case status client of None \<Rightarrow> emptyStatus
                             | Some st \<Rightarrow> st\<lparr>conditions := live\<rparr>);
            newStatus = (upd currentStatus)\<lparr>observedGeneration := generation (metadata client)\<rparr>
        in tryCatch
             (seq (perform w (PatchStatus (name (metadata client)) (namespace (metadata client)) newStatus))
                  (logMsg Debug ''Status updated''))
             (\<lambda>err. logMsg Error ''Failed to update status'')))"

definition addCondition :: "World \<Rightarrow> PocketIDClient \<Rightarrow> Condition \<Rightarrow> unit prog" where
  "addCondition w client condition =
     andThen getConds (\<lambda>live.
       (let conditions' = upsertCondition (case live of None \<Rightarrow> [] | Some cs \<Rightarrow> cs) condition
        in seq (case live of None \<Rightarrow> ret () | Some cs \<Rightarrow> setConds (Some conditions'))
            (seq (perform w (PatchStatus (name (metadata client)) (namespace (metadata client))
                    (emptyStatus\<lparr>conditions := Some conditions'\<rparr>)))
                 (ret ()))))"

definition upsertSecret ::
  "World \<Rightarrow> string \<Rightarrow> string \<Rightarrow> string \<Rightarrow> string \<Rightarrow> string \<Rightarrow> string option \<Rightarrow>
   SecretTemplate option \<Rightarrow> string option \<Rightarrow> unit prog" where
  "upsertSecret w ns secretNm clientIdent clientSecret ownerName ownerUid secretTmpl clientName =
     (let context = \<lparr>ClientID = clientIdent, ClientSecret = clientSecret,
                     ClientName = orElse clientName [], Namespace = ns, ResourceName = ownerName\<rparr>;
          stringData =
            (case (case secretTmpl of None \<Rightarrow> None | Some t \<Rightarrow> t_data t) of
               Some d \<Rightarrow> map (\<lambda>(k, v). (k, renderTemplate v context)) d
             | None \<Rightarrow> [(''CLIENT_ID'', clientIdent), (''CLIENT_SECRET'', clientSecret)])
      in seq (perform w (ApplySecret \<lparr>sec_name = secretNm, sec_namespace = ns,
                sec_ownerName = ownerName, sec_ownerUid = ownerUid, sec_stringData = stringData\<rparr>))
             (logMsg Info ''Secret created/updated''))"

definition deleteSecret :: "World \<Rightarrow> string \<Rightarrow> string \<Rightarrow> unit prog" where
  "deleteSecret w ns secretNm =
     tryCatch
       (seq (perform w (DeleteSecret ns secretNm)) (logMsg Info ''Secret deleted''))
       (\<lambda>err. if e_status err \<noteq> Some 404 then throw err else ret ())"

definition addFinalizer :: "World \<Rightarrow> PocketIDClient \<Rightarrow> unit prog" where
  "addFinalizer w client =
     (let fs = (case finalizers (metadata client) of None \<Rightarrow> [] | Some l \<Rightarrow> l)
      in if FINALIZER \<notin> set fs
         then seq (perform w (ApplyFinalizers (name (metadata client)) (namespace (metadata client))
                     (fs @ [FINALIZER])))
                  (ret ())
         else ret ())"

definition removeFinalizer :: "World \<Rightarrow> PocketIDClient \<Rightarrow> unit prog" where
  "removeFinalizer w client =
     (let fs = (case finalizers (metadata client) of None \<Rightarrow> [] | Some l \<Rightarrow> l)
      in if FINALIZER \<in> set fs
         then seq (perform w (ApplyFinalizers (name (metadata client)) (namespace (metadata client))
                     (filter (\<lambda>f. f \<noteq> FINALIZER) fs)))
                  (ret ())
         else ret ())"

definition clientExists :: "World \<Rightarrow> string \<Rightarrow> bool prog" where
  "clientExists w clientIdent =
     tryCatch (seq (perform w (GetApiOidcClients1 clientIdent)) (ret True)) (\<lambda>err. ret False)"

definition handleDeletion :: "World \<Rightarrow> PocketIDClient \<Rightarrow> unit prog" where
  "handleDeletion w client =
     seq (updateStatus w client (\<lambda>st. st\<lparr>phase := Some Removing\<rparr>))
       (tryCatch
          (let clientIdent =
                 orElse (statusField clientId client)
                   (orElse (case spec client of None \<Rightarrow> None | Some sp \<Rightarrow> s_id sp)
                      (name (metadata client)))
           in seq (andThen (clientExists w clientIdent) (\<lambda>ex.
                     if ex
                     then seq (logMsg Info ''Deleting OIDC client from PocketID'')
                            (seq (perform w (DeleteApiOidcClients clientIdent)) (ret ()))
                     else ret ()))
               (let secretNm = orElse (statusField secretName client)
                                 (name (metadata client) @ ''-credentials'')
                in seq (deleteSecret w (namespace (metadata client)) secretNm)
                    (seq (removeFinalizer w client)
                       (logMsg Info ''PocketIDClient deletion completed''))))
          (\<lambda>err.
             seq (logMsg Error ''Failed to delete PocketIDClient'')
               (seq (updateStatus w client (\<lambda>st. st\<lparr>phase := Some RemovalFailed\<rparr>))
                  (andThen (createCondition w ''Ready'' StatusFalse ''DeletionFailed''
                              (''Deletion failed: '' @ e_message err) (generation (metadata client)))
                     (addCondition w client)))))"

text \<open>The body of the \<open>try\<close> block of \<open>reconcile\<close>.\<close>

definition upsertSequence :: "World \<Rightarrow> PocketIDClient \<Rightarrow> unit prog" where
  "upsertSequence w client =
     (let md = metadata client; gen = generation md in
      case (case spec client of None \<Rightarrow> None
            | Some sp \<Rightarrow> if truthy (s_name sp) then Some sp else None) of
        None \<Rightarrow> throw \<lparr>e_status = None, e_message = ''spec.name is required''\<rparr>
      | Some sp \<Rightarrow>
         (let clientIdent = orElse (s_id sp) (name md);
              secretNm = orElse (case secretTemplate sp of None \<Rightarrow> None | Some t \<Rightarrow> t_name t)
                           (name md @ ''-credentials'');
              dto = \<lparr>dto_id = None, dto_name = orElse (s_name sp) [],
                     dto_callbackURLs = callbackURLs sp,
                     dto_logoutCallbackURLs = logoutCallbackURLs sp,
                     dto_isPublic = isPublic sp, dto_pkceEnabled = pkceEnabled sp,
                     dto_isGroupRestricted = isGroupRestricted sp, dto_launchURL = launchURL sp,
                     dto_requiresReauthentication = requiresReauthentication sp\<rparr>
          in andThen (clientExists w clientIdent) (\<lambda>ex.
             andThen
               (if ex
                then seq (logMsg Info ''Updating existing OIDC client'')
                      (seq (perform w (PutApiOidcClients clientIdent dto))
                        (andThen (perform w (PostApiOidcClientsSecret clientIdent)) (\<lambda>secret.
                          seq (andThen (createCondition w ''ClientUpdated'' StatusTrue ''UpdateSucceeded''
                                          (''OIDC client '' @ clientIdent @ '' updated successfully'') gen)
                                 (addCondition w client))
                              (ret secret))))
                else seq (logMsg Info ''Creating new OIDC client'')
                      (seq (perform w (PostApiOidcClients (dto\<lparr>dto_id := Some clientIdent\<rparr>)))
                        (andThen (perform w (PostApiOidcClientsSecret clientIdent)) (\<lambda>secret.
                          seq (andThen (createCondition w ''ClientCreated'' StatusTrue ''CreateSucceeded''
                                          (''OIDC client '' @ clientIdent @ '' created successfully'') gen)
                                 (addCondition w client))
                              (ret secret)))))
               (\<lambda>clientSecret.
                 seq (upsertSecret w (namespace md) secretNm clientIdent clientSecret (name md) (uid md)
                        (secretTemplate sp) (s_name sp))
                  (seq (andThen (createCondition w ''SecretCreated'' StatusTrue ''SecretReady''
                                   (''Secret '' @ secretNm @ '' created/updated'') gen)
                          (addCondition w client))
                    (seq (updateStatus w client
                            (\<lambda>st. st\<lparr>phase := Some Ready, clientId := Some clientIdent,
                                      secretName := Some secretNm, retryAttempt := Some 0,
                                      nextRetryTime := None\<rparr>))
                      (seq (andThen (createCondition w ''Ready'' StatusTrue ''ReconcileSucceeded''
                                       ''Reconciliation completed successfully'' gen)
                              (addCondition w client))
                        (logMsg Info ''PocketIDClient reconciled successfully''))))))))"

text \<open>
  The \<open>catch\<close> block of \<open>reconcile\<close>. \<open>Date.now() + backoffDelay\<close> is a sum of doubles, and
  \<open>new Date\<close> drops the fraction of a millisecond.
\<close>

definition recordFailure :: "World \<Rightarrow> PocketIDClient \<Rightarrow> JsError \<Rightarrow> unit prog" where
  "recordFailure w client err =
     (let attempt = retryAttemptOrZero client + 1 in
      andThen (mathRandom w) (\<lambda>rnd.
        (let backoffDelay = calculateBackoffDelay rnd attempt in
         andThen (dateNow w) (\<lambda>t.
           (let nextRetry = toISOString w \<lfloor>roundDouble (real_of_int t + backoffDelay)\<rfloor> in
            seq (logMsg Error ''Failed to reconcile PocketIDClient, will retry with backoff'')
              (seq (updateStatus w client
                      (\<lambda>st. st\<lparr>phase := Some Failed, retryAttempt := Some attempt,
                                nextRetryTime := Some nextRetry\<rparr>))
                 (andThen (createCondition w ''Ready'' StatusFalse ''ReconcileFailed''
                             (''Reconciliation failed: '' @ e_message err @ ''. Retry '' @
                              showInt attempt @ ''/'' @ showInt maxRetries @ '' scheduled.'')
                             (generation (metadata client)))
                    (addCondition w client))))))))"

definition reconcile :: "World \<Rightarrow> PocketIDClient \<Rightarrow> unit prog" where
  "reconcile w client =
     (let md = metadata client; gen = generation md in
      if truthy (deletionTimestamp md)
      then seq (logMsg Info ''PocketIDClient is being deleted'') (handleDeletion w client)
      else if statusField observedGeneration client = gen \<and> statusField phase client = Some Ready
      then logMsg Debug ''Already reconciled this generation''
      else andThen (shouldSkipDueToBackoff w client) (\<lambda>skip.
        if skip \<and> statusField observedGeneration client = gen then ret ()
        else
          (let currentRetry = retryAttemptOrZero client in
           if currentRetry \<ge> maxRetries
           then seq (logMsg Warn ''Max retries exceeded, giving up'')
                  (andThen (createCondition w ''Ready'' StatusFalse ''MaxRetriesExceeded''
                              (''Gave up after '' @ showInt currentRetry @
                               '' failed attempts. Manual intervention required.'') gen)
                     (addCondition w client))
           else
             seq (addFinalizer w client)
               (seq (updateStatus w client
                       (\<lambda>st. st\<lparr>phase := Some (if currentRetry > 0 then Retrying else Pending),
                                 nextRetryTime := None\<rparr>))
                 (seq (andThen (createCondition w ''Reconciling'' StatusTrue
                                  (if currentRetry > 0 then ''RetryStarted'' else ''ReconcileStarted'')
                                  (if currentRetry > 0
                                   then ''Retry attempt '' @ showInt (currentRetry + 1) @ ''/'' @
                                        showInt maxRetries
                                   else ''Starting reconciliation'') gen)
                         (addCondition w client))
                   (tryCatch (upsertSequence w client) (recordFailure w client)))))))"

text \<open>
  The handler of \<open>When(PocketIDClient).IsCreatedOrUpdated().Watch\<close>. Each event delivers a
  new resource object, so the run of \<open>reconcile\<close> starts on that object's own conditions
  array.
\<close>

definition watchHandler :: "World \<Rightarrow> PocketIDClient \<Rightarrow> unit prog" where
  "watchHandler w client =
     (let md = metadata client;
          proceed = seq (logMsg Info ''PocketIDClient created or updated'')
                      (seq (setConds (statusField conditions client)) (reconcile w client))
      in if \<not> truthy (deletionTimestamp md)
         then (case generation md of
                 None \<Rightarrow> ret ()
               | Some g \<Rightarrow>
                   if \<not> truthy (uid md) then ret ()
                   else andThen (getLastGen (orElse (uid md) [])) (\<lambda>last.
                     if last = Some g
                     then logMsg Debug ''Ignoring status-only update''
                     else seq (setLastGen (orElse (uid md) []) g) proceed))
         else proceed)"

text \<open>The state in which a process that has handled no event yet receives \<open>client\<close>.\<close>

definition initialState :: "PocketIDClient \<Rightarrow> State" where
  "initialState client =
     \<lparr>trace = [], logs = [], lastGenByUid = (\<lambda>u. None), conds = statusField conditions client\<rparr>"

section \<open>Notions used to state the properties\<close>

text \<open>
  A program \<open>emits Q\<close> when, from every state, it only appends requests that satisfy
  \<open>Q\<close> to the trace and leaves the map \<open>lastGenByUid\<close> as it found it.
\<close>

definition emits :: "(call \<Rightarrow> bool) \<Rightarrow> 'a prog \<Rightarrow> bool" where
  "emits Q m = (\<forall>s. \<exists>cs. trace (snd (m s)) = trace s @ cs \<and> (\<forall>c \<in> set cs. Q (fst c))
                     \<and> lastGenByUid (snd (m s)) = lastGenByUid s)"

text \<open>
  The values that the deletion path and the upsert path compute from the resource:
  \<open>client.status?.clientId || client.spec?.id || name\<close> and
  \<open>client.status?.secretName || `${name}-credentials`\<close> in \<open>handleDeletion\<close>;
  \<open>spec.id || name\<close> and \<open>spec.secretTemplate?.name || `${name}-credentials`\<close> in
  \<open>reconcile\<close>.
\<close>

definition clientIdOnDelete :: "PocketIDClient \<Rightarrow> string" where
  "clientIdOnDelete client =
     orElse (statusField clientId client)
       (orElse (case spec client of None \<Rightarrow> None | Some sp \<Rightarrow> s_id sp) (name (metadata client)))"

definition secretNameOnDelete :: "PocketIDClient \<Rightarrow> string" where
  "secretNameOnDelete client =
     orElse (statusField secretName client) (name (metadata client) @ ''-credentials'')"

definition clientIdOnUpsert :: "PocketIDClient \<Rightarrow> string" where
  "clientIdOnUpsert client =
     orElse (case spec client of None \<Rightarrow> None | Some sp \<Rightarrow> s_id sp) (name (metadata client))"

definition secretNameOnUpsert :: "PocketIDClient \<Rightarrow> string" where
  "secretNameOnUpsert client =
     orElse (case spec client of None \<Rightarrow> None
             | Some sp \<Rightarrow> (case secretTemplate sp of None \<Rightarrow> None | Some t \<Rightarrow> t_name t))
       (name (metadata client) @ ''-credentials'')"

text \<open>
  A status patch that carries nothing but a conditions list, as \<open>addCondition\<close> sends it.
\<close>

definition conditionsOnly :: "PocketIDClientStatus \<Rightarrow> bool" where
  "conditionsOnly st = (st = emptyStatus\<lparr>conditions := conditions st\<rparr>)"

text \<open>
  The requests that the deletion path may send for a resource, and the ones that the upsert
  path may send.
\<close>

definition deletionCall :: "PocketIDClient \<Rightarrow> call \<Rightarrow> bool" where
  "deletionCall client c =
     (case c of
        PatchStatus n ns st \<Rightarrow>
          n = name (metadata client) \<and> ns = namespace (metadata client) \<and>
          (conditionsOnly st \<or>
           (observedGeneration st = generation (metadata client)
            \<and> (phase st = Some Removing \<or> phase st = Some RemovalFailed)))
      | ApplyFinalizers n ns fs \<Rightarrow>
          n = name (metadata client) \<and> ns = namespace (metadata client) \<and> FINALIZER \<notin> set fs
      | DeleteSecret ns sn \<Rightarrow>
          ns = namespace (metadata client) \<and>
          sn = orElse (statusField secretName client) (name (metadata client) @ ''-credentials'')
      | GetApiOidcClients1 i \<Rightarrow> i = clientIdOnDelete client
      | DeleteApiOidcClients i \<Rightarrow> i = clientIdOnDelete client
      | _ \<Rightarrow> False)"

definition upsertCall :: "PocketIDClient \<Rightarrow> call \<Rightarrow> bool" where
  "upsertCall client c =
     (case c of
        PatchStatus n ns st \<Rightarrow>
          n = name (metadata client) \<and> ns = namespace (metadata client) \<and>
          (conditionsOnly st \<or>
           (observedGeneration st = generation (metadata client)
            \<and> (phase st = Some Pending \<or> phase st = Some Retrying \<or> phase st = Some Ready
                \<or> phase st = Some Failed)))
      | ApplyFinalizers n ns fs \<Rightarrow>
          n = name (metadata client) \<and> ns = namespace (metadata client) \<and> FINALIZER \<in> set fs
      | ApplySecret sec \<Rightarrow>
          sec_namespace sec = namespace (metadata client) \<and> sec_name sec = secretNameOnUpsert client
      | GetApiOidcClients1 i \<Rightarrow> i = clientIdOnUpsert client
      | PutApiOidcClients i d \<Rightarrow> i = clientIdOnUpsert client
      | PostApiOidcClients d \<Rightarrow> dto_id d = Some (clientIdOnUpsert client)
      | PostApiOidcClientsSecret i \<Rightarrow> i = clientIdOnUpsert client
      | _ \<Rightarrow> False)"

text \<open>
  The single requests of a run, written out: the conditions patch of \<open>addCondition\<close> for
  a condition and the current conditions array, the patch of \<open>updateStatus\<close> that sets a
  phase, the finalizer release of \<open>removeFinalizer\<close>, and the conditions that
  \<open>reconcile\<close> and \<open>handleDeletion\<close> create at the max-retry gate and after a failed
  deletion. \<open>delivered\<close> is the state in which \<open>reconcile\<close> starts on the object of a
  new event.
\<close>

definition conditionsPatch :: "PocketIDClient \<Rightarrow> State \<Rightarrow> Condition \<Rightarrow> call" where
  "conditionsPatch client s c =
     PatchStatus (name (metadata client)) (namespace (metadata client))
       (emptyStatus\<lparr>conditions :=
          Some (upsertCondition (case conds s of None \<Rightarrow> [] | Some cs \<Rightarrow> cs) c)\<rparr>)"

definition phasePatch :: "PocketIDClient \<Rightarrow> State \<Rightarrow> Phase \<Rightarrow> call" where
  "phasePatch client s ph =
     PatchStatus (name (metadata client)) (namespace (metadata client))
       ((case status client of None \<Rightarrow> emptyStatus | Some st \<Rightarrow> st\<lparr>conditions := conds s\<rparr>)
          \<lparr>phase := Some ph, observedGeneration := generation (metadata client)\<rparr>)"

definition releaseCall :: "PocketIDClient \<Rightarrow> call" where
  "releaseCall client =
     ApplyFinalizers (name (metadata client)) (namespace (metadata client))
       (filter (\<lambda>f. f \<noteq> FINALIZER) (case finalizers (metadata client) of None \<Rightarrow> [] | Some l \<Rightarrow> l))"

definition maxRetriesCondition :: "World \<Rightarrow> PocketIDClient \<Rightarrow> State \<Rightarrow> Condition" where
  "maxRetriesCondition w client s =
     \<lparr>c_type = ''Ready'', c_status = StatusFalse,
      c_observedGeneration = generation (metadata client),
      c_lastTransitionTime = toISOString w (now w (length (trace s))),
      c_reason = ''MaxRetriesExceeded'',
      c_message = ''Gave up after '' @ showInt (retryAttemptOrZero client) @
                  '' failed attempts. Manual intervention required.''\<rparr>"

definition deletionFailedCondition :: "World \<Rightarrow> PocketIDClient \<Rightarrow> nat \<Rightarrow> JsError \<Rightarrow> Condition" where
  "deletionFailedCondition w client k e =
     \<lparr>c_type = ''Ready'', c_status = StatusFalse,
      c_observedGeneration = generation (metadata client),
      c_lastTransitionTime = toISOString w (now w k),
      c_reason = ''DeletionFailed'', c_message = ''Deletion failed: '' @ e_message e\<rparr>"

definition deletionFailureCalls :: "World \<Rightarrow> PocketIDClient \<Rightarrow> State \<Rightarrow> nat \<Rightarrow> JsError \<Rightarrow> call list" where
  "deletionFailureCalls w client s k e =
     [phasePatch client s RemovalFailed,
      conditionsPatch client s (deletionFailedCondition w client k e)]"

definition statusLog :: "outcome \<Rightarrow> LogLevel \<times> string" where
  "statusLog r = (case r of Returned v \<Rightarrow> (Debug, ''Status updated'')
                  | Threw e \<Rightarrow> (Error, ''Failed to update status''))"

definition delivered :: "PocketIDClient \<Rightarrow> State \<Rightarrow> State" where
  "delivered client s = s\<lparr>conds := statusField conditions client\<rparr>"

subsection \<open>Templates as segments\<close>

text \<open>
  To state what \<open>renderTemplate\<close> should produce, a template is read as a list of
  segments: literal text, a recognized placeholder \<open>{{ .Field }}\<close> with its white space, or
  a placeholder of the same shape whose name is none of the five fields. \<open>fill\<close> is the
  intended result: each recognized placeholder becomes the value of its field, everything
  else stays. Literal text is \<open>braceSafe\<close> when each of its opening braces is followed, in the
  same text, by a character that is not an opening brace; a value is plain when it is
  brace-safe and has no dollar sign. \<open>noPlaceholder t\<close> says that none of the five patterns
  matches anywhere in \<open>t\<close>.
\<close>

datatype Field = FClientID | FClientSecret | FClientName | FNamespace | FResourceName

definition fields :: "Field list" where
  "fields = [FClientID, FClientSecret, FClientName, FNamespace, FResourceName]"

fun fieldName :: "Field \<Rightarrow> string" where
  "fieldName FClientID = ''ClientID''"
| "fieldName FClientSecret = ''ClientSecret''"
| "fieldName FClientName = ''ClientName''"
| "fieldName FNamespace = ''Namespace''"
| "fieldName FResourceName = ''ResourceName''"

fun fieldValue :: "TemplateContext \<Rightarrow> Field \<Rightarrow> string" where
  "fieldValue ctx FClientID = ClientID ctx"
| "fieldValue ctx FClientSecret = ClientSecret ctx"
| "fieldValue ctx FClientName = ClientName ctx"
| "fieldValue ctx FNamespace = Namespace ctx"
| "fieldValue ctx FResourceName = ResourceName ctx"

datatype segment = Lit string | Hole Field string string | Unknown string string string

fun segmentText :: "segment \<Rightarrow> string" where
  "segmentText (Lit t) = t"
| "segmentText (Hole f w1 w2) = ''{{'' @ w1 @ CHR ''.'' # fieldName f @ w2 @ ''}}''"
| "segmentText (Unknown w1 nm w2) = ''{{'' @ w1 @ CHR ''.'' # nm @ w2 @ ''}}''"

definition templateText :: "segment list \<Rightarrow> string" where
  "templateText segs = concat (map segmentText segs)"

fun braceSafe :: "string \<Rightarrow> bool" where
  "braceSafe [] = True"
| "braceSafe [c] = (c \<noteq> CHR ''{'')"
| "braceSafe (c # d # rest) = ((c = CHR ''{'' \<longrightarrow> d \<noteq> CHR ''{'') \<and> braceSafe (d # rest))"

definition isNameChar :: "char \<Rightarrow> bool" where
  "isNameChar c = (\<not> isWhiteSpace c \<and> c \<noteq> CHR ''{'' \<and> c \<noteq> CHR ''}'')"

fun wellFormed :: "segment \<Rightarrow> bool" where
  "wellFormed (Lit t) = braceSafe t"
| "wellFormed (Hole f w1 w2) = (list_all isWhiteSpace w1 \<and> list_all isWhiteSpace w2)"
| "wellFormed (Unknown w1 nm w2) =
     (list_all isWhiteSpace w1 \<and> list_all isWhiteSpace w2 \<and> list_all isNameChar nm
      \<and> nm \<notin> set (map fieldName fields))"

fun fill :: "TemplateContext \<Rightarrow> segment \<Rightarrow> string" where
  "fill ctx (Lit t) = t"
| "fill ctx (Hole f w1 w2) = fieldValue ctx f"
| "fill ctx (Unknown w1 nm w2) = segmentText (Unknown w1 nm w2)"

definition plainValue :: "string \<Rightarrow> bool" where
  "plainValue v = (CHR ''$'' \<notin> set v \<and> braceSafe v)"

definition plainContext :: "TemplateContext \<Rightarrow> bool" where
  "plainContext ctx = list_all (\<lambda>f. plainValue (fieldValue ctx f)) fields"

definition noPlaceholder :: "string \<Rightarrow> bool" where
  "noPlaceholder t =
     list_all (\<lambda>f. list_all (\<lambda>i. matchPlaceholder (fieldName f) (drop i t) = None) [0..<length t]) fields"

fun substField :: "Field \<Rightarrow> string \<Rightarrow> segment \<Rightarrow> segment" where
  "substField f v (Lit t) = Lit t"
| "substField f v (Hole g w1 w2) = (if g = f then Lit v else Hole g w1 w2)"
| "substField f v (Unknown w1 nm w2) = Unknown w1 nm w2"

section \<open>Example resources and worlds\<close>

text \<open>
  A world in which every request succeeds (and \<open>postApiOidcClientsSecret\<close> returns
  \<open>s3cret\<close>), the clock reads 1000 and every retry time parses to 5000; variants of it in
  which the clock has passed the retry time, every conditions-only status patch fails, the
  sixth request fails, or the deletion of the OIDC client fails.
\<close>

definition storageError :: JsError where
  "storageError = \<lparr>e_status = Some 500, e_message = ''etcd unavailable''\<rparr>"

definition calmWorld :: World where
  "calmWorld = \<lparr>respond = (\<lambda>k c. Returned ''s3cret''), now = (\<lambda>k. 1000), random = (\<lambda>k. 0),
     parseDate = (\<lambda>t. Some 5000), toISOString = (\<lambda>t. ''T'')\<rparr>"

definition lateWorld :: World where
  "lateWorld = calmWorld\<lparr>now := (\<lambda>k. 9000)\<rparr>"

definition conditionWritesFail :: World where
  "conditionWritesFail = calmWorld\<lparr>respond := (\<lambda>k c.
     case c of PatchStatus n ns st \<Rightarrow> if phase st = None then Threw storageError else Returned []
     | _ \<Rightarrow> Returned ''s3cret'')\<rparr>"

definition sixthCallFails :: World where
  "sixthCallFails = calmWorld\<lparr>respond := (\<lambda>k c. if k = 5 then Threw storageError else Returned ''s3cret'')\<rparr>"

definition deleteFails :: World where
  "deleteFails = calmWorld\<lparr>respond := (\<lambda>k c.
     case c of DeleteApiOidcClients i \<Rightarrow> Threw storageError | _ \<Rightarrow> Returned [])\<rparr>"

text \<open>
  A resource \<open>app\<close> in namespace \<open>default\<close>, generation 2, with the finalizer and a secret
  template that names the secret \<open>custom\<close>: newly created; reconciled and ready; stalled
  after ten failures at generation 2; the stalled resource after a spec edit (generation 3);
  marked for deletion; without a UID; with generation 0.
\<close>

definition exMetadata :: Metadata where
  "exMetadata = \<lparr>namespace = ''default'', name = ''app'', uid = Some ''u1'', generation = Some 2,
     deletionTimestamp = None, finalizers = Some [FINALIZER]\<rparr>"

definition exSpec :: PocketIDClientSpec where
  "exSpec = \<lparr>s_id = None, s_name = Some ''App'', callbackURLs = None, logoutCallbackURLs = None,
     isPublic = None, pkceEnabled = None, isGroupRestricted = None, launchURL = None,
     requiresReauthentication = None,
     secretTemplate = Some \<lparr>t_name = Some ''custom'', t_data = None\<rparr>\<rparr>"

definition newClient :: PocketIDClient where
  "newClient = \<lparr>metadata = exMetadata, spec = Some exSpec, status = None\<rparr>"

definition readyClient :: PocketIDClient where
  "readyClient = \<lparr>metadata = exMetadata, spec = Some exSpec,
     status = Some (emptyStatus\<lparr>observedGeneration := Some 2, phase := Some Ready,
                retryAttempt := Some 0, clientId := Some ''app'', secretName := Some ''custom''\<rparr>)\<rparr>"

definition stalledClient :: PocketIDClient where
  "stalledClient = \<lparr>metadata = exMetadata, spec = Some exSpec,
     status = Some (emptyStatus\<lparr>observedGeneration := Some 2, phase := Some Failed,
                retryAttempt := Some 10, nextRetryTime := Some ''later''\<rparr>)\<rparr>"

definition bumpedClient :: PocketIDClient where
  "bumpedClient = stalledClient\<lparr>metadata := exMetadata\<lparr>generation := Some 3\<rparr>\<rparr>"

definition doomedClient :: PocketIDClient where
  "doomedClient = \<lparr>metadata = exMetadata\<lparr>deletionTimestamp := Some ''2026-11-02T00:00:00Z''\<rparr>,
     spec = Some exSpec, status = None\<rparr>"

definition anonymousClient :: PocketIDClient where
  "anonymousClient = \<lparr>metadata = exMetadata\<lparr>uid := None\<rparr>, spec = Some exSpec, status = None\<rparr>"

definition zeroGenClient :: PocketIDClient where
  "zeroGenClient = \<lparr>metadata = exMetadata\<lparr>generation := Some 0\<rparr>, spec = Some exSpec, status = None\<rparr>"

text \<open>
  The state of a process whose last accepted event for \<open>u1\<close> had generation 2, and the
  requests that the example runs send.
\<close>

definition seenState :: "PocketIDClient \<Rightarrow> State" where
  "seenState client = (initialState client)\<lparr>lastGenByUid := (\<lambda>u. if u = ''u1'' then Some 2 else None)\<rparr>"

definition maxRetriesPatch :: "int \<Rightarrow> call" where
  "maxRetriesPatch g = PatchStatus ''app'' ''default'' (emptyStatus\<lparr>conditions := Some
        [\<lparr>c_type = ''Ready'', c_status = StatusFalse, c_observedGeneration = Some g,
          c_lastTransitionTime = ''T'', c_reason = ''MaxRetriesExceeded'',
          c_message = ''Gave up after 10 failed attempts. Manual intervention required.''\<rparr>]\<rparr>)"

definition removingPatch :: call where
  "removingPatch = PatchStatus ''app'' ''default''
     (emptyStatus\<lparr>observedGeneration := Some 2, phase := Some Removing\<rparr>)"

definition releasePatch :: call where
  "releasePatch = ApplyFinalizers ''app'' ''default'' []"

definition removalFailedCalls :: "call list" where
  "removalFailedCalls =
     [PatchStatus ''app'' ''default'' (emptyStatus\<lparr>observedGeneration := Some 2, phase := Some RemovalFailed\<rparr>),
      PatchStatus ''app'' ''default'' (emptyStatus\<lparr>conditions := Some
        [\<lparr>c_type = ''Ready'', c_status = StatusFalse, c_observedGeneration = Some 2,
          c_lastTransitionTime = ''T'', c_reason = ''DeletionFailed'',
          c_message = ''Deletion failed: etcd unavailable''\<rparr>]\<rparr>)]"

definition failedPatch :: call where
  "failedPatch = PatchStatus ''app'' ''default''
         (emptyStatus\<lparr>observedGeneration := Some 2, phase := Some Failed, retryAttempt := Some 1,
            nextRetryTime := Some ''T''\<rparr>)"

text \<open>
  Example conditions, an example template context, an example template, and a context
  whose client id is itself the text of a placeholder.
\<close>

definition exCond :: "string \<Rightarrow> ConditionStatus \<Rightarrow> string \<Rightarrow> Condition" where
  "exCond ty st rsn = \<lparr>c_type = ty, c_status = st, c_observedGeneration = Some 1,
     c_lastTransitionTime = ''t'', c_reason = rsn, c_message = []\<rparr>"

definition exContext :: TemplateContext where
  "exContext = \<lparr>ClientID = ''abc'', ClientSecret = ''s3cret'', ClientName = ''App'',
     Namespace = ''default'', ResourceName = ''app''\<rparr>"

definition exSegments :: "segment list" where
  "exSegments = [Lit ''{id: '', Hole FClientID '' '' '' '', Lit '', ns: '', Hole FNamespace [] [],
     Lit '', x: '', Unknown '' '' ''Foo'' '' '', Lit ''}'']"

definition nestingContext :: TemplateContext where
  "nestingContext = exContext\<lparr>ClientID := ''{{ .ClientSecret }}''\<rparr>"

section \<open>Properties of the backoff policy\<close>

lemma binade_bounds:
  assumes "0 < x"
  shows "power_int 2 (binade x) \<le> x \<and> x < power_int 2 (binade x + 1)"
proof (cases "1 \<le> x")
  case True
  define n where "n = \<lfloor>x\<rfloor>"
  from True have npos: "0 < n" by (simp add: n_def)
  from bitlen_bounds [OF npos] have b: "2 ^ nat (bitlen n - 1) \<le> n" "n < 2 ^ nat (bitlen n)"
    by simp_all
  from npos have b1: "1 \<le> bitlen n" using bitlen_eq_zero_iff [of n] bitlen_nonneg [of n] by linarith
  have "(2::real) ^ nat (bitlen n - 1) \<le> of_int n"
    using b(1) by (metis of_int_le_iff of_int_numeral of_int_power)
  also have "\<dots> \<le> x" by (simp add: n_def)
  finally have lo: "(2::real) ^ nat (bitlen n - 1) \<le> x" .
  have "n + 1 \<le> 2 ^ nat (bitlen n)" using b(2) by simp
  then have "of_int (n + 1) \<le> (2::real) ^ nat (bitlen n)"
    by (metis of_int_le_iff of_int_numeral of_int_power)
  moreover have "x < of_int (n + 1)" by (simp add: n_def)
  ultimately have hi: "x < (2::real) ^ nat (bitlen n)" by linarith
  from True b1 lo hi show ?thesis
    by (simp add: binade_def n_def [symmetric] power_int_def)
next
  case False
  define m where "m = \<lceil>1 / x\<rceil>"
  from False assms have inv: "1 < 1 / x" by simp
  then have m2: "2 \<le> m" unfolding m_def by linarith
  define k where "k = bitlen (m - 1)"
  from m2 have mpos: "0 < m - 1" by simp
  from bitlen_bounds [OF mpos] have b: "2 ^ nat (k - 1) \<le> m - 1" "m - 1 < 2 ^ nat k"
    by (simp_all add: k_def)
  from mpos have k1: "1 \<le> k"
    using bitlen_eq_zero_iff [of "m - 1"] bitlen_nonneg [of "m - 1"] unfolding k_def by linarith
  have "(2::real) ^ nat (k - 1) \<le> of_int (m - 1)"
    using b(1) by (metis of_int_le_iff of_int_numeral of_int_power)
  also have "\<dots> < 1 / x" unfolding m_def by linarith
  finally have up: "(2::real) ^ nat (k - 1) < 1 / x" .
  have "m \<le> 2 ^ nat k" using b(2) by simp
  then have "of_int m \<le> (2::real) ^ nat k"
    by (metis of_int_le_iff of_int_numeral of_int_power)
  moreover have "1 / x \<le> of_int m" by (simp add: m_def)
  ultimately have down: "1 / x \<le> (2::real) ^ nat k" by linarith
  have lo: "inverse ((2::real) ^ nat k) \<le> x"
    using down assms by (simp add: field_simps)
  have hi: "x < inverse ((2::real) ^ nat (k - 1))"
    using up assms by (simp add: field_simps)
  have e: "binade x = - k" using False by (simp add: binade_def m_def k_def)
  have p1: "power_int (2::real) (- k) = inverse (2 ^ nat k)"
    using k1 by (simp add: power_int_def inverse_eq_divide power_one_over)
  have p2: "power_int (2::real) (1 - k) = inverse (2 ^ nat (k - 1))"
  proof (cases "k = 1")
    case True
    then show ?thesis by simp
  next
    case False
    with k1 have "1 - k < 0" "nat (- (1 - k)) = nat (k - 1)" by simp_all
    then show ?thesis by (simp add: power_int_def inverse_eq_divide power_one_over)
  qed
  from lo hi show ?thesis by (simp add: e p1 p2)
qed

lemma binade_unique:
  assumes "0 < x" and "power_int 2 e \<le> x" and "x < power_int 2 (e + 1)"
  shows "binade x = e"
proof -
  from binade_bounds [OF assms(1)] have b: "power_int 2 (binade x) \<le> x" "x < power_int 2 (binade x + 1)"
    by simp_all
  have "power_int (2::real) e < power_int 2 (binade x + 1)" using assms(2) b(2) by linarith
  then have "e < binade x + 1"
    by (metis not_less power_int_increasing one_le_numeral)
  moreover have "power_int (2::real) (binade x) < power_int 2 (e + 1)" using assms(3) b(1) by linarith
  then have "binade x < e + 1"
    by (metis not_less power_int_increasing one_le_numeral)
  ultimately show ?thesis by linarith
qed


lemma roundHalfEven_floor: "\<lfloor>y\<rfloor> \<le> roundHalfEven y \<and> roundHalfEven y \<le> \<lfloor>y\<rfloor> + 1"
  by (simp add: roundHalfEven_def Let_def)

lemma roundHalfEven_of_int [simp]: "roundHalfEven (of_int k) = k"
  by (simp add: roundHalfEven_def Let_def)

lemma roundHalfEven_ge:
  assumes "of_int N \<le> y"
  shows "N \<le> roundHalfEven y"
proof -
  from assms have "N \<le> \<lfloor>y\<rfloor>" by (simp add: le_floor_iff)
  with roundHalfEven_floor [of y] show ?thesis by linarith
qed

lemma roundHalfEven_le:
  assumes "y \<le> of_int N"
  shows "roundHalfEven y \<le> N"
proof (cases "y = of_int N")
  case True
  then show ?thesis by simp
next
  case False
  with assms have "y < of_int N" by simp
  then have "\<lfloor>y\<rfloor> < N" by (simp add: floor_less_iff)
  with roundHalfEven_floor [of y] show ?thesis by linarith
qed

lemma roundHalfEven_mono:
  assumes "y1 \<le> y2"
  shows "roundHalfEven y1 \<le> roundHalfEven y2"
proof (cases "\<lfloor>y1\<rfloor> = \<lfloor>y2\<rfloor>")
  case True
  with assms show ?thesis by (auto simp add: roundHalfEven_def Let_def)
next
  case False
  from assms have "\<lfloor>y1\<rfloor> \<le> \<lfloor>y2\<rfloor>" by (rule floor_mono)
  with False have "\<lfloor>y1\<rfloor> + 1 \<le> \<lfloor>y2\<rfloor>" by simp
  with roundHalfEven_floor [of y1] roundHalfEven_floor [of y2] show ?thesis by linarith
qed

lemma roundDouble_eval:
  assumes "0 < x" and "power_int 2 e \<le> x" and "x < power_int 2 (e + 1)"
  shows "roundDouble x = power_int 2 (e - 52) * of_int (roundHalfEven (x / power_int 2 (e - 52)))"
  using assms binade_unique [OF assms] by (simp add: roundDouble_def Let_def)

lemma roundDouble_binade:
  assumes "0 < x"
  shows "power_int 2 (binade x) \<le> roundDouble x \<and> roundDouble x \<le> power_int 2 (binade x + 1)"
proof -
  define e where "e = binade x"
  define u :: real where "u = power_int 2 (e - 52)"
  have upos: "0 < u" by (simp add: u_def)
  from binade_bounds [OF assms] have b: "power_int 2 e \<le> x" "x < power_int 2 (e + 1)"
    by (simp_all add: e_def)
  have rd: "roundDouble x = u * of_int (roundHalfEven (x / u))"
    using roundDouble_eval [OF assms b] by (simp add: u_def)
  have lo_eq: "power_int (2::real) e = u * of_int (2 ^ 52 :: int)"
    using power_int_add [of "2::real" "e - 52" 52] by (simp add: u_def)
  have hi_eq: "power_int (2::real) (e + 1) = u * of_int (2 ^ 53 :: int)"
    using power_int_add [of "2::real" "e - 52" 53] by (simp add: u_def add.commute)
  have "of_int (2 ^ 52 :: int) \<le> x / u"
    using b(1) upos unfolding lo_eq by (simp add: field_simps)
  then have "(2 ^ 52 :: int) \<le> roundHalfEven (x / u)" by (rule roundHalfEven_ge)
  then have "of_int (2 ^ 52 :: int) \<le> (of_int (roundHalfEven (x / u)) :: real)"
    by (simp only: of_int_le_iff)
  then have lo: "power_int 2 e \<le> roundDouble x"
    unfolding rd lo_eq using upos by (intro mult_left_mono) simp_all
  have "x / u \<le> of_int (2 ^ 53 :: int)"
    using b(2) upos unfolding hi_eq by (simp add: field_simps)
  then have "roundHalfEven (x / u) \<le> (2 ^ 53 :: int)" by (rule roundHalfEven_le)
  then have "(of_int (roundHalfEven (x / u)) :: real) \<le> of_int (2 ^ 53 :: int)"
    by (simp only: of_int_le_iff)
  then have hi: "roundDouble x \<le> power_int 2 (e + 1)"
    unfolding rd hi_eq using upos by (intro mult_left_mono) simp_all
  from lo hi show ?thesis by (simp add: e_def)
qed

lemma binade_mono:
  assumes "0 < x" and "x \<le> y"
  shows "binade x \<le> binade y"
proof -
  from assms have "0 < y" by simp
  from binade_bounds [OF assms(1)] binade_bounds [OF this] assms(2)
  have "power_int (2::real) (binade x) < power_int 2 (binade y + 1)" by linarith
  then have "binade x < binade y + 1"
    by (metis not_less power_int_increasing one_le_numeral)
  then show ?thesis by simp
qed

lemma roundDouble_mono:
  assumes "0 \<le> x" and "x \<le> y"
  shows "roundDouble x \<le> roundDouble y"
proof (cases "x = 0")
  case True
  show ?thesis
  proof (cases "y = 0")
    case True
    with \<open>x = 0\<close> show ?thesis by simp
  next
    case False
    with assms have "0 < y" by simp
    from roundDouble_binade [OF this] have "0 < roundDouble y"
      using zero_less_power_int [of "2::real" "binade y"] by linarith
    with True show ?thesis by (simp add: roundDouble_def)
  qed
next
  case False
  with assms have xpos: "0 < x" and ypos: "0 < y" by simp_all
  from binade_mono [OF xpos assms(2)] have le: "binade x \<le> binade y" .
  show ?thesis
  proof (cases "binade x = binade y")
    case True
    define u :: real where "u = power_int 2 (binade y - 52)"
    have upos: "0 < u" by (simp add: u_def)
    have rx: "roundDouble x = u * of_int (roundHalfEven (x / u))"
      using xpos True by (simp add: roundDouble_def Let_def u_def)
    have ry: "roundDouble y = u * of_int (roundHalfEven (y / u))"
      using ypos by (simp add: roundDouble_def Let_def u_def)
    from assms(2) upos have "x / u \<le> y / u" by (simp add: divide_right_mono)
    then have "roundHalfEven (x / u) \<le> roundHalfEven (y / u)" by (rule roundHalfEven_mono)
    then have "(of_int (roundHalfEven (x / u)) :: real) \<le> of_int (roundHalfEven (y / u))"
      by (simp only: of_int_le_iff)
    then show ?thesis unfolding rx ry using upos by (intro mult_left_mono) simp_all
  next
    case False
    with le have "binade x + 1 \<le> binade y" by simp
    then have "power_int (2::real) (binade x + 1) \<le> power_int 2 (binade y)"
      by (intro power_int_increasing) simp_all
    with roundDouble_binade [OF xpos] roundDouble_binade [OF ypos] show ?thesis by linarith
  qed
qed

lemma roundDouble_of_int:
  assumes "0 \<le> k" and "k < 2 ^ 53"
  shows "roundDouble (of_int k) = of_int k"
proof (cases "k = 0")
  case True
  then show ?thesis by (simp add: roundDouble_def)
next
  case False
  with assms have kpos: "0 < (of_int k :: real)" by simp
  define e where "e = binade (of_int k)"
  from binade_bounds [OF kpos] have b: "power_int 2 e \<le> (of_int k :: real)" "(of_int k :: real) < power_int 2 (e + 1)"
    by (simp_all add: e_def)
  have "(of_int k :: real) < power_int 2 53" using assms(2)
    by (metis of_int_less_iff of_int_numeral of_int_power power_int_numeral)
  with b(1) have "power_int (2::real) e < power_int 2 53" by linarith
  then have e52: "e \<le> 52"
    using power_int_increasing [of 53 e "2::real"] by (cases "e \<le> 52") auto
  define j where "j = nat (52 - e)"
  have u: "power_int (2::real) (e - 52) = inverse (2 ^ j)"
    using e52 power_int_minus [of "2::real" "52 - e"] by (simp add: j_def power_int_def)
  have "of_int k / power_int (2::real) (e - 52) = of_int (k * 2 ^ j)"
    by (simp add: u field_simps)
  then have "roundHalfEven (of_int k / power_int (2::real) (e - 52)) = k * 2 ^ j"
    by (simp only: roundHalfEven_of_int)
  with roundDouble_eval [OF kpos b] show ?thesis
    by (simp add: u field_simps)
qed

lemma roundDouble_numeral_1000 [simp]: "roundDouble 1000 = 1000"
  using roundDouble_of_int [of 1000] by simp

lemma roundDouble_zero [simp]: "roundDouble 0 = 0"
  by (simp add: roundDouble_def)

lemma jitter_bounds:
  assumes "0 \<le> rnd" and "rnd < 1"
  shows "0 \<le> roundDouble (rnd * 1000) \<and> roundDouble (rnd * 1000) \<le> 1000"
proof -
  from assms have "0 \<le> rnd * 1000" "rnd * 1000 \<le> 1000" by simp_all
  with roundDouble_mono [of 0 "rnd * 1000"] roundDouble_mono [of "rnd * 1000" 1000]
  show ?thesis by simp
qed

lemma power_int_two_nat: "1 \<le> n \<Longrightarrow> power_int (2::real) (n - 1) = 2 ^ nat (n - 1)"
  by (simp add: power_int_def)

lemma backoff_small:
  assumes "1 \<le> n" "n \<le> 6" and "0 \<le> rnd" "rnd < 1"
  shows "5000 * 2 ^ nat (n - 1) \<le> calculateBackoffDelay rnd n
       \<and> calculateBackoffDelay rnd n \<le> 5000 * 2 ^ nat (n - 1) + 1000"
proof -
  define k :: int where "k = 5000 * 2 ^ nat (n - 1)"
  have "nat (n - 1) \<le> 5" using assms by simp
  then have "(2::int) ^ nat (n - 1) \<le> 2 ^ 5" by (intro power_increasing) simp_all
  then have k_le: "k \<le> 160000" by (simp add: k_def)
  have k_ge: "0 \<le> k" by (simp add: k_def)
  have kr: "(of_int k :: real) = 5000 * 2 ^ nat (n - 1)" by (simp add: k_def)
  have e1: "roundDouble (of_int k) = of_int k"
    using k_le k_ge by (intro roundDouble_of_int) simp_all
  have e2: "roundDouble (of_int (k + 1000)) = of_int (k + 1000)"
    using k_le k_ge by (intro roundDouble_of_int) simp_all
  define j where "j = roundDouble (rnd * 1000)"
  from jitter_bounds [OF assms(3,4)] have j: "0 \<le> j" "j \<le> 1000" by (simp_all add: j_def)
  have lo: "of_int k \<le> roundDouble (of_int k + j)"
    using roundDouble_mono [of "of_int k" "of_int k + j"] k_ge j e1 by simp
  have hi: "roundDouble (of_int k + j) \<le> of_int k + 1000"
    using roundDouble_mono [of "of_int k + j" "of_int (k + 1000)"] k_ge j e2 by simp
  have eq: "calculateBackoffDelay rnd n = roundDouble (of_int k + j)"
    using assms(1,2) hi k_le e1
    by (simp add: calculateBackoffDelay_def Let_def baseDelayMs_def maxDelayMs_def
          power_int_two_nat j_def kr [symmetric] min_def)
  from lo hi show ?thesis by (simp add: eq kr)
qed

lemma backoff_large:
  assumes "7 \<le> n" and "0 \<le> rnd" "rnd < 1"
  shows "calculateBackoffDelay rnd n = 300000"
proof (cases "1012 \<le> n - 1")
  case True
  then show ?thesis by (simp add: calculateBackoffDelay_def maxDelayMs_def)
next
  case False
  have "6 \<le> nat (n - 1)" using assms by simp
  then have "(2::real) ^ 6 \<le> 2 ^ nat (n - 1)" by (intro power_increasing) simp_all
  then have big: "320000 \<le> 5000 * power_int (2::real) (n - 1)"
    using assms(1) by (simp add: power_int_two_nat)
  have r: "roundDouble 320000 = 320000"
    using roundDouble_of_int [of 320000] by simp
  define ex where "ex = roundDouble (5000 * power_int 2 (n - 1))"
  have ex: "320000 \<le> ex"
    using roundDouble_mono [of 320000 "5000 * power_int 2 (n - 1)"] big r by (simp add: ex_def)
  define j where "j = roundDouble (rnd * 1000)"
  from jitter_bounds [OF assms(2,3)] have j: "0 \<le> j" by (simp add: j_def)
  have "320000 \<le> roundDouble (ex + j)"
    using roundDouble_mono [of 320000 "ex + j"] ex j r by simp
  with False assms(1) show ?thesis
    by (simp add: calculateBackoffDelay_def Let_def baseDelayMs_def maxDelayMs_def
          ex_def [symmetric] j_def [symmetric] min_def)
qed

text \<open>
  C3 (as amended). For every attempt count \<open>n \<ge> 1\<close> and every number \<open>rnd\<close> that
  \<open>Math.random()\<close> may return (\<open>0 \<le> rnd < 1\<close>): the delay never exceeds 300000 ms; for
  \<open>n \<le> 6\<close> it lies in the closed interval from \<open>5000 * 2^(n-1)\<close> to
  \<open>5000 * 2^(n-1) + 1000\<close>; for \<open>n \<ge> 7\<close> the cap wins and the delay is exactly 300000 ms,
  below \<open>5000 * 2^(n-1)\<close>.
\<close>

theorem backoff_bounds:
  assumes "1 \<le> n" and "0 \<le> rnd" and "rnd < 1"
  shows "calculateBackoffDelay rnd n \<le> 300000
       \<and> (n \<le> 6 \<longrightarrow> 5000 * 2 ^ nat (n - 1) \<le> calculateBackoffDelay rnd n
                  \<and> calculateBackoffDelay rnd n \<le> 5000 * 2 ^ nat (n - 1) + 1000)
       \<and> (7 \<le> n \<longrightarrow> calculateBackoffDelay rnd n = 300000
                  \<and> calculateBackoffDelay rnd n < 5000 * 2 ^ nat (n - 1))"
proof (intro conjI impI)
  show "calculateBackoffDelay rnd n \<le> 300000"
    by (simp add: calculateBackoffDelay_def maxDelayMs_def Let_def)
next
  assume "n \<le> 6"
  with backoff_small [OF assms(1) this assms(2,3)]
  show "5000 * 2 ^ nat (n - 1) \<le> calculateBackoffDelay rnd n"
    and "calculateBackoffDelay rnd n \<le> 5000 * 2 ^ nat (n - 1) + 1000"
    by simp_all
next
  assume ge: "7 \<le> n"
  from backoff_large [OF ge assms(2,3)]
  show eq: "calculateBackoffDelay rnd n = 300000" .
  have "6 \<le> nat (n - 1)" using ge by simp
  then have "(2::real) ^ 6 \<le> 2 ^ nat (n - 1)" by (intro power_increasing) simp_all
  then show "calculateBackoffDelay rnd n < 5000 * 2 ^ nat (n - 1)"
    by (simp add: eq)
qed

text \<open>
  The upper end of the interval is reached: for \<open>Math.random() = 1 - 2^(-52)\<close> the jitter
  is \<open>1000 - 2^(-42)\<close> and the sum \<open>5000 + jitter\<close> rounds to 6000.
\<close>

theorem backoff_bounds_witness:
  "calculateBackoffDelay (1/2) 3 \<le> 300000
   \<and> 5000 * 2 ^ nat (3 - 1) \<le> calculateBackoffDelay (1/2) 3
   \<and> calculateBackoffDelay (1/2) 3 \<le> 5000 * 2 ^ nat (3 - 1) + 1000
   \<and> calculateBackoffDelay (1/2) 9 = 300000
   \<and> calculateBackoffDelay (1 - 1 / 2 ^ 52) 1 = 5000 * 2 ^ nat (1 - 1) + 1000"
proof -
  have top: "calculateBackoffDelay (1 - 1 / 2 ^ 52) 1 = 6000"
    by code_simp
  from backoff_bounds [of 3 "1/2"] backoff_bounds [of 9 "1/2"] top show ?thesis by simp
qed

text \<open>
  C3 as written fails twice. From the seventh attempt on the lower bound fails: with
  jitter 0 the delay of attempt 7 is the cap, 300000 ms, below \<open>5000 * 2^6 = 320000\<close>. And
  the upper bound is not strict: for \<open>Math.random() = 1 - 2^(-52)\<close> the delay of attempt 1
  is exactly \<open>5000 + 1000\<close>.
\<close>

theorem backoff_lower_bound_counterexample:
  "\<not> (baseDelayMs * 2 ^ (7 - 1) \<le> calculateBackoffDelay 0 7)
   \<and> \<not> (calculateBackoffDelay (1 - 1 / 2 ^ 52) 1 < baseDelayMs * 2 ^ (1 - 1) + 1000)"
proof -
  have a: "calculateBackoffDelay 0 7 = 300000" by code_simp
  have b: "calculateBackoffDelay (1 - 1 / 2 ^ 52) 1 = 6000" by code_simp
  show ?thesis unfolding a b by (simp add: baseDelayMs_def)
qed

section \<open>Properties of the condition ledger\<close>

lemma findIndex_ge: "-1 \<le> findIndex P xs"
  by (induction xs) (auto simp: Let_def)

lemma findIndex_none: "(findIndex P xs < 0) = (\<forall>x \<in> set xs. \<not> P x)"
  using findIndex_ge [of P] by (induction xs) (auto simp: Let_def)

lemma findIndex_first:
  "\<exists>x \<in> set xs. P x \<Longrightarrow>
     nat (findIndex P xs) < length xs \<and> P (xs ! nat (findIndex P xs))
     \<and> (\<forall>j < nat (findIndex P xs). \<not> P (xs ! j))"
proof (induction xs)
  case Nil
  then show ?case by simp
next
  case (Cons x xs)
  show ?case
  proof (cases "P x")
    case True
    then show ?thesis by simp
  next
    case False
    with Cons.prems have ex: "\<exists>x \<in> set xs. P x" by simp
    then have nn: "\<not> findIndex P xs < 0" by (simp add: findIndex_none)
    then have suc: "nat (findIndex P xs + 1) = Suc (nat (findIndex P xs))" by simp
    from Cons.IH [OF ex] False nn show ?thesis
      by (auto simp: Let_def suc nth_Cons split: nat.splits)
  qed
qed

lemma upsertCondition_present:
  assumes "c_type c \<in> c_type ` set cs"
  shows "\<exists>i < length cs. c_type (cs ! i) = c_type c \<and> (\<forall>j < i. c_type (cs ! j) \<noteq> c_type c)
           \<and> upsertCondition cs c = cs[i := c]"
proof -
  let ?P = "\<lambda>d. c_type d = c_type c"
  from assms have ex: "\<exists>x \<in> set cs. ?P x" by auto
  then have "\<not> findIndex ?P cs < 0" by (simp add: findIndex_none)
  then have "upsertCondition cs c = cs[nat (findIndex ?P cs) := c]"
    by (simp add: upsertCondition_def Let_def)
  with findIndex_first [of cs ?P, OF ex] show ?thesis by blast
qed

lemma upsertCondition_absent:
  assumes "c_type c \<notin> c_type ` set cs"
  shows "upsertCondition cs c = cs @ [c]"
proof -
  from assms have "\<forall>d \<in> set cs. c_type d \<noteq> c_type c"
    by (metis image_eqI)
  then have "findIndex (\<lambda>d. c_type d = c_type c) cs < 0"
    by (simp add: findIndex_none)
  then show ?thesis by (simp add: upsertCondition_def Let_def)
qed

lemma upsertCondition_types:
  "map c_type (upsertCondition cs c) =
     (if c_type c \<in> c_type ` set cs then map c_type cs else map c_type cs @ [c_type c])"
proof (cases "c_type c \<in> c_type ` set cs")
  case True
  from upsertCondition_present [OF True] obtain i where
    i: "i < length cs" "c_type (cs ! i) = c_type c" "upsertCondition cs c = cs[i := c]" by blast
  then have "map c_type (upsertCondition cs c) = (map c_type cs)[i := c_type (cs ! i)]"
    by (simp add: map_update)
  also have "\<dots> = map c_type cs" using i(1) by (simp add: list_update_same_conv)
  finally show ?thesis using True by simp
next
  case False
  then show ?thesis by (simp add: upsertCondition_absent)
qed

text \<open>
  C6. The list update of \<open>addCondition\<close> keeps condition types unique; when the type
  of the new condition occurs in the list, the first entry of that type (the only one, in a
  list with unique types) is replaced in place, so the length, the other entries and their
  order stay; when it does not occur, the new condition is appended at the end.
\<close>

theorem upsertCondition_ledger:
  "(distinct (map c_type cs) \<longrightarrow> distinct (map c_type (upsertCondition cs c)))
   \<and> (c_type c \<in> c_type ` set cs \<longrightarrow>
        (\<exists>i < length cs. c_type (cs ! i) = c_type c \<and> (\<forall>j < i. c_type (cs ! j) \<noteq> c_type c)
           \<and> upsertCondition cs c = cs[i := c])
        \<and> length (upsertCondition cs c) = length cs)
   \<and> (c_type c \<notin> c_type ` set cs \<longrightarrow> upsertCondition cs c = cs @ [c])"
proof (intro conjI impI)
  assume "distinct (map c_type cs)"
  then show "distinct (map c_type (upsertCondition cs c))"
    by (auto simp: upsertCondition_types)
next
  assume "c_type c \<in> c_type ` set cs"
  then show "\<exists>i < length cs. c_type (cs ! i) = c_type c \<and> (\<forall>j < i. c_type (cs ! j) \<noteq> c_type c)
           \<and> upsertCondition cs c = cs[i := c]"
    by (rule upsertCondition_present)
next
  assume "c_type c \<in> c_type ` set cs"
  from upsertCondition_present [OF this] show "length (upsertCondition cs c) = length cs"
    by auto
next
  assume "c_type c \<notin> c_type ` set cs"
  then show "upsertCondition cs c = cs @ [c]" by (rule upsertCondition_absent)
qed

theorem upsertCondition_ledger_witness:
  "upsertCondition [exCond ''Reconciling'' StatusTrue ''ReconcileStarted'',
                    exCond ''Ready'' StatusFalse ''ReconcileFailed'',
                    exCond ''SecretCreated'' StatusTrue ''SecretReady'']
                   (exCond ''Ready'' StatusTrue ''ReconcileSucceeded'')
   = [exCond ''Reconciling'' StatusTrue ''ReconcileStarted'',
      exCond ''Ready'' StatusTrue ''ReconcileSucceeded'',
      exCond ''SecretCreated'' StatusTrue ''SecretReady'']
   \<and> distinct (map c_type (upsertCondition [exCond ''Reconciling'' StatusTrue ''ReconcileStarted'',
                    exCond ''Ready'' StatusFalse ''ReconcileFailed'',
                    exCond ''SecretCreated'' StatusTrue ''SecretReady'']
                   (exCond ''Ready'' StatusTrue ''ReconcileSucceeded'')))
   \<and> upsertCondition [exCond ''Reconciling'' StatusTrue ''ReconcileStarted'']
                      (exCond ''Ready'' StatusTrue ''ReconcileSucceeded'')
     = [exCond ''Reconciling'' StatusTrue ''ReconcileStarted'', exCond ''Ready'' StatusTrue ''ReconcileSucceeded'']"
  using upsertCondition_ledger [of "[exCond ''Reconciling'' StatusTrue ''ReconcileStarted'',
                    exCond ''Ready'' StatusFalse ''ReconcileFailed'',
                    exCond ''SecretCreated'' StatusTrue ''SecretReady'']" "exCond ''Ready'' StatusTrue ''ReconcileSucceeded''"]
    upsertCondition_ledger [of "[exCond ''Reconciling'' StatusTrue ''ReconcileStarted'']" "exCond ''Ready'' StatusTrue ''ReconcileSucceeded''"]
  by (simp add: exCond_def upsertCondition_def)

section \<open>Properties of the template renderer\<close>

lemma fields_complete: "f \<in> set fields"
  by (cases f) (simp_all add: fields_def)

lemma stripPrefix_Some: "(stripPrefix p s = Some r) = (s = p @ r)"
  by (induction p s rule: stripPrefix.induct) auto

lemma stripPrefix_append [simp]: "stripPrefix p (p @ r) = Some r"
  by (simp add: stripPrefix_Some)

lemma getSubstitution_plain:
  "CHR ''$'' \<notin> set v \<Longrightarrow> getSubstitution m b a v = v"
  by (induction m b a v rule: getSubstitution.induct) auto

lemma replaceGlobal_skip:
  "(\<forall>i < length p. matchPlaceholder f (drop i (p @ t)) = None)
     \<Longrightarrow> replaceGlobal f v b (p @ t) = p @ replaceGlobal f v (b @ p) t"
proof (induction p arbitrary: b)
  case Nil
  then show ?case by simp
next
  case (Cons c p)
  from Cons.prems have here: "matchPlaceholder f (c # p @ t) = None" by force
  from Cons.prems have "\<forall>i < length p. matchPlaceholder f (drop i (p @ t)) = None" by force
  from Cons.IH [OF this, of "b @ [c]"] here show ?case by simp
qed

lemma replaceGlobal_noMatch:
  assumes "\<forall>i < length t. matchPlaceholder f (drop i t) = None"
  shows "replaceGlobal f v b t = t"
  using replaceGlobal_skip [of t f "[]" v b] assms by simp

lemma matchPlaceholder_not_brace:
  "c \<noteq> CHR ''{'' \<Longrightarrow> matchPlaceholder f (c # rest) = None"
  by (simp add: matchPlaceholder_def)

lemma matchPlaceholder_single_brace:
  "d \<noteq> CHR ''{'' \<Longrightarrow> matchPlaceholder f (c # d # rest) = None"
  by (simp add: matchPlaceholder_def)

lemma no_match_in_braceSafe:
  "braceSafe p \<Longrightarrow> i < length p \<Longrightarrow> matchPlaceholder f (drop i (p @ t)) = None"
proof (induction p arbitrary: i rule: braceSafe.induct)
  case 1
  then show ?case by simp
next
  case (2 c)
  then show ?case by (simp add: matchPlaceholder_not_brace)
next
  case (3 c d rest)
  show ?case
  proof (cases i)
    case 0
    with "3.prems" show ?thesis
      by (cases "c = CHR ''{''") (simp_all add: matchPlaceholder_not_brace matchPlaceholder_single_brace)
  next
    case (Suc j)
    with "3.prems" "3.IH" [of j] show ?thesis by simp
  qed
qed

lemma braceless_safe: "CHR ''{'' \<notin> set p \<Longrightarrow> braceSafe p"
  by (induction p rule: braceSafe.induct) auto

lemma whiteSpace_not_special [simp]:
  "\<not> isWhiteSpace (CHR ''.'')" "\<not> isWhiteSpace (CHR ''}'')" "\<not> isWhiteSpace (CHR ''{'')"
  by (simp_all add: isWhiteSpace_def)

lemma whiteSpace_no_brace: "list_all isWhiteSpace ws \<Longrightarrow> CHR ''{'' \<notin> set ws"
  using whiteSpace_not_special(3) by (auto simp: list_all_iff)

lemma dropWhile_whiteSpace:
  "list_all isWhiteSpace ws \<Longrightarrow> \<not> isWhiteSpace c \<Longrightarrow> dropWhile isWhiteSpace (ws @ c # rest) = c # rest"
  by (induction ws) auto

lemma no_match_inside:
  assumes nb: "CHR ''{'' \<notin> set body" and ne: "body \<noteq> []"
    and pos: "0 < i" and i: "i < Suc (Suc (length body))"
  shows "matchPlaceholder f (drop i (CHR ''{'' # CHR ''{'' # body @ t)) = None"
proof (cases i)
  case 0
  with pos show ?thesis by simp
next
  case (Suc j)
  show ?thesis
  proof (cases j)
    case 0
    from ne obtain b0 bs where b: "body = b0 # bs" by (cases body) auto
    with nb have "b0 \<noteq> CHR ''{''" by auto
    with Suc 0 b show ?thesis by (simp add: matchPlaceholder_single_brace)
  next
    case (Suc k)
    with \<open>i = Suc j\<close> i have "k < length body" by simp
    from no_match_in_braceSafe [OF braceless_safe [OF nb] this, of f t] Suc \<open>i = Suc j\<close>
    show ?thesis by simp
  qed
qed

lemma fieldName_mismatch:
  "g \<noteq> f \<Longrightarrow> stripPrefix (fieldName f) (fieldName g @ rest) = None"
  by (cases f; cases g) simp_all

lemma fieldName_chars: "c \<in> set (fieldName f) \<Longrightarrow> isNameChar c"
  by (cases f) (auto simp: isNameChar_def isWhiteSpace_def)

lemma fieldName_no_brace [simp]: "CHR ''{'' \<notin> set (fieldName f)"
  using fieldName_chars [of "CHR ''{''" f] by (auto simp: isNameChar_def)

lemma matchPlaceholder_hole:
  assumes "wellFormed (Hole g w1 w2)"
  shows "matchPlaceholder (fieldName f) (segmentText (Hole g w1 w2) @ t) =
           (if g = f then Some (length (segmentText (Hole g w1 w2))) else None)"
proof -
  from assms have w: "list_all isWhiteSpace w1" "list_all isWhiteSpace w2" by simp_all
  have d1: "dropWhile isWhiteSpace (w1 @ CHR ''.'' # fieldName g @ w2 @ ''}}'' @ t)
              = CHR ''.'' # fieldName g @ w2 @ ''}}'' @ t"
    using w(1) by (rule dropWhile_whiteSpace) simp
  have d2: "dropWhile isWhiteSpace (w2 @ ''}}'' @ t) = ''}}'' @ t"
    using dropWhile_whiteSpace [OF w(2), of "CHR ''}''" "CHR ''}'' # t"] by simp
  show ?thesis
  proof (cases "g = f")
    case True
    have "stripPrefix (fieldName f) (fieldName f @ w2 @ ''}}'' @ t) = Some (w2 @ ''}}'' @ t)"
      by (rule stripPrefix_append)
    with True d1 d2 show ?thesis by (simp add: matchPlaceholder_def)
  next
    case False
    from fieldName_mismatch [OF False, of "w2 @ ''}}'' @ t"] False d1 show ?thesis
      by (simp add: matchPlaceholder_def)
  qed
qed

lemma matchPlaceholder_unknown:
  assumes wf: "wellFormed (Unknown w1 nm w2)"
  shows "matchPlaceholder (fieldName f) (segmentText (Unknown w1 nm w2) @ t) = None"
proof -
  from wf have w: "list_all isWhiteSpace w1" "list_all isWhiteSpace w2"
    and nc: "\<forall>c \<in> set nm. isNameChar c" and other: "nm \<noteq> fieldName f"
    using fields_complete [of f] by (auto simp: list_all_iff)
  have d1: "dropWhile isWhiteSpace (w1 @ CHR ''.'' # nm @ w2 @ ''}}'' @ t)
              = CHR ''.'' # nm @ w2 @ ''}}'' @ t"
    using w(1) by (rule dropWhile_whiteSpace) simp
  have tail: "stripPrefix (fieldName f) (nm @ w2 @ ''}}'' @ t) = Some r
                \<Longrightarrow> stripPrefix ''}}'' (dropWhile isWhiteSpace r) = None" for r
  proof -
    assume "stripPrefix (fieldName f) (nm @ w2 @ ''}}'' @ t) = Some r"
    then have eq: "nm @ (w2 @ ''}}'' @ t) = fieldName f @ r" by (simp add: stripPrefix_Some)
    then consider
      (longer) us where "nm = fieldName f @ us" "us @ (w2 @ ''}}'' @ t) = r"
      | (shorter) us where "nm @ us = fieldName f" "w2 @ ''}}'' @ t = us @ r"
      by (auto simp: append_eq_append_conv2)
    then show ?thesis
    proof cases
      case longer
      with other obtain u0 us' where us: "us = u0 # us'" by (cases us) auto
      with longer nc have "isNameChar u0" by simp
      then have "\<not> isWhiteSpace u0" "u0 \<noteq> CHR ''}''" by (simp_all add: isNameChar_def)
      with longer us show ?thesis by auto
    next
      case shorter
      with other obtain u0 us' where us: "us = u0 # us'" by (cases us) auto
      with shorter have "u0 \<in> set (fieldName f)" by (metis in_set_conv_decomp)
      then have name: "\<not> isWhiteSpace u0" "u0 \<noteq> CHR ''}''"
        using fieldName_chars [of u0 f] by (simp_all add: isNameChar_def)
      from shorter us have "hd (w2 @ ''}}'' @ t) = u0" by simp
      moreover have "isWhiteSpace (hd (w2 @ ''}}'' @ t)) \<or> hd (w2 @ ''}}'' @ t) = CHR ''}''"
        using w(2) by (cases w2) simp_all
      ultimately show ?thesis using name by auto
    qed
  qed
  show ?thesis
    using d1 tail by (simp add: matchPlaceholder_def split: option.splits)
qed

lemma no_match_in_segment:
  assumes wf: "wellFormed seg" and other: "\<forall>w1 w2. seg \<noteq> Hole f w1 w2"
    and i: "i < length (segmentText seg)"
  shows "matchPlaceholder (fieldName f) (drop i (segmentText seg @ t)) = None"
proof (cases seg)
  case (Lit p)
  with wf i have "braceSafe p" "i < length p" by simp_all
  from no_match_in_braceSafe [OF this, of "fieldName f" t] Lit show ?thesis
    by (simp only: segmentText.simps)
next
  case (Hole g w1 w2)
  with other have neq: "g \<noteq> f" by simp
  define body where "body = w1 @ CHR ''.'' # fieldName g @ w2 @ ''}}''"
  from wf Hole have nb: "CHR ''{'' \<notin> set body"
    by (simp add: body_def whiteSpace_no_brace)
  have ne: "body \<noteq> []" by (simp add: body_def)
  have shape: "segmentText seg @ t = CHR ''{'' # CHR ''{'' # body @ t"
    and len: "length (segmentText seg) = Suc (Suc (length body))"
    using Hole by (simp_all add: body_def)
  show ?thesis
  proof (cases "i = 0")
    case True
    with matchPlaceholder_hole [of g w1 w2 f t] wf Hole neq show ?thesis by simp
  next
    case False
    with no_match_inside [OF nb ne, of i "fieldName f" t] i len shape show ?thesis by simp
  qed
next
  case (Unknown w1 nm w2)
  define body where "body = w1 @ CHR ''.'' # nm @ w2 @ ''}}''"
  from wf Unknown have "CHR ''{'' \<notin> set nm"
    by (auto simp: list_all_iff isNameChar_def)
  with wf Unknown have nb: "CHR ''{'' \<notin> set body"
    by (simp add: body_def whiteSpace_no_brace)
  have ne: "body \<noteq> []" by (simp add: body_def)
  have shape: "segmentText seg @ t = CHR ''{'' # CHR ''{'' # body @ t"
    and len: "length (segmentText seg) = Suc (Suc (length body))"
    using Unknown by (simp_all add: body_def)
  show ?thesis
  proof (cases "i = 0")
    case True
    with matchPlaceholder_unknown [of w1 nm w2 f t] wf Unknown show ?thesis by simp
  next
    case False
    with no_match_inside [OF nb ne, of i "fieldName f" t] i len shape show ?thesis by simp
  qed
qed

lemma replaceGlobal_pass:
  assumes "list_all wellFormed segs" and "CHR ''$'' \<notin> set v"
  shows "replaceGlobal (fieldName f) v b (templateText segs) = templateText (map (substField f v) segs)"
  using assms(1)
proof (induction segs arbitrary: b)
  case Nil
  then show ?case by (simp add: templateText_def)
next
  case (Cons seg segs)
  then have IH: "\<And>b. replaceGlobal (fieldName f) v b (templateText segs)
                      = templateText (map (substField f v) segs)"
    by simp
  from Cons.prems have wf: "wellFormed seg" by simp
  show ?case
  proof (cases "\<exists>w1 w2. seg = Hole f w1 w2")
    case False
    then have same: "substField f v seg = seg" by (cases seg) auto
    from False have "\<forall>i < length (segmentText seg).
        matchPlaceholder (fieldName f) (drop i (segmentText seg @ templateText segs)) = None"
      using no_match_in_segment [OF wf] by blast
    from replaceGlobal_skip [OF this] same IH show ?thesis
      by (simp add: templateText_def)
  next
    case True
    then obtain w1 w2 where hole: "seg = Hole f w1 w2" by blast
    define ph where "ph = segmentText seg"
    obtain body where ph_cons: "ph = CHR ''{'' # body"
      using hole by (simp add: ph_def)
    from wf hole have m: "matchPlaceholder (fieldName f) (ph @ templateText segs) = Some (length ph)"
      using matchPlaceholder_hole [of f w1 w2 f "templateText segs"] by (simp add: ph_def)
    have "replaceGlobal (fieldName f) v b (ph @ templateText segs)
            = v @ replaceGlobal (fieldName f) v (b @ ph) (templateText segs)"
      using m ph_cons assms(2) by (simp add: getSubstitution_plain)
    with IH hole show ?thesis
      by (simp add: templateText_def ph_def)
  qed
qed

lemma substField_wellFormed:
  "wellFormed seg \<Longrightarrow> braceSafe v \<Longrightarrow> wellFormed (substField f v seg)"
  by (cases seg) auto

lemma substField_all:
  assumes "plainContext ctx" and "wellFormed seg"
  shows "segmentText
           (substField FResourceName (ResourceName ctx)
             (substField FNamespace (Namespace ctx)
               (substField FClientName (ClientName ctx)
                 (substField FClientSecret (ClientSecret ctx)
                   (substField FClientID (ClientID ctx) seg))))) = fill ctx seg"
proof (cases seg)
  case (Hole g w1 w2)
  then show ?thesis by (cases g) simp_all
qed simp_all

lemma renderTemplate_segments:
  assumes wf: "list_all wellFormed segs" and plain: "plainContext ctx"
  shows "renderTemplate (templateText segs) ctx = concat (map (fill ctx) segs)"
proof -
  from plain have p: "plainValue (ClientID ctx)" "plainValue (ClientSecret ctx)"
    "plainValue (ClientName ctx)" "plainValue (Namespace ctx)" "plainValue (ResourceName ctx)"
    by (simp_all add: plainContext_def fields_def)
  define s1 where "s1 = map (substField FClientID (ClientID ctx)) segs"
  define s2 where "s2 = map (substField FClientSecret (ClientSecret ctx)) s1"
  define s3 where "s3 = map (substField FClientName (ClientName ctx)) s2"
  define s4 where "s4 = map (substField FNamespace (Namespace ctx)) s3"
  define s5 where "s5 = map (substField FResourceName (ResourceName ctx)) s4"
  have wf1: "list_all wellFormed s1"
    using wf p(1) by (simp add: s1_def list_all_iff substField_wellFormed plainValue_def)
  have wf2: "list_all wellFormed s2"
    using wf1 p(2) by (simp add: s2_def list_all_iff substField_wellFormed plainValue_def)
  have wf3: "list_all wellFormed s3"
    using wf2 p(3) by (simp add: s3_def list_all_iff substField_wellFormed plainValue_def)
  have wf4: "list_all wellFormed s4"
    using wf3 p(4) by (simp add: s4_def list_all_iff substField_wellFormed plainValue_def)
  have r1: "replaceGlobal ''ClientID'' (ClientID ctx) [] (templateText segs) = templateText s1"
    using replaceGlobal_pass [OF wf, of "ClientID ctx" FClientID "[]"] p(1)
    by (simp add: s1_def plainValue_def)
  have r2: "replaceGlobal ''ClientSecret'' (ClientSecret ctx) [] (templateText s1) = templateText s2"
    using replaceGlobal_pass [OF wf1, of "ClientSecret ctx" FClientSecret "[]"] p(2)
    by (simp add: s2_def plainValue_def)
  have r3: "replaceGlobal ''ClientName'' (ClientName ctx) [] (templateText s2) = templateText s3"
    using replaceGlobal_pass [OF wf2, of "ClientName ctx" FClientName "[]"] p(3)
    by (simp add: s3_def plainValue_def)
  have r4: "replaceGlobal ''Namespace'' (Namespace ctx) [] (templateText s3) = templateText s4"
    using replaceGlobal_pass [OF wf3, of "Namespace ctx" FNamespace "[]"] p(4)
    by (simp add: s4_def plainValue_def)
  have r5: "replaceGlobal ''ResourceName'' (ResourceName ctx) [] (templateText s4) = templateText s5"
    using replaceGlobal_pass [OF wf4, of "ResourceName ctx" FResourceName "[]"] p(5)
    by (simp add: s5_def plainValue_def)
  have "map segmentText s5 = map (fill ctx) segs"
    using wf plain
    by (simp add: s5_def s4_def s3_def s2_def s1_def list_all_iff substField_all)
  then have "templateText s5 = concat (map (fill ctx) segs)"
    by (simp add: templateText_def)
  with r1 r2 r3 r4 r5 show ?thesis
    by (simp only: renderTemplate_def)
qed

lemma renderTemplate_noPlaceholder:
  assumes "noPlaceholder t"
  shows "renderTemplate t ctx = t"
proof -
  have none: "\<forall>i < length t. matchPlaceholder (fieldName f) (drop i t) = None" for f
    using assms fields_complete [of f] by (auto simp: noPlaceholder_def list_all_iff)
  from none [of FClientID] none [of FClientSecret] none [of FClientName] none [of FNamespace]
    none [of FResourceName]
  show ?thesis
    by (simp add: renderTemplate_def replaceGlobal_noMatch)
qed

text \<open>
  C4 (as amended). For a template made of brace-safe literal text, recognized placeholders
  (with any white space around the field name) and placeholders with other names, and a
  context whose five values are plain, \<open>renderTemplate\<close> returns the template with every
  recognized placeholder replaced by exactly the value of its field, and everything else
  unchanged. For every context, a template in which none of the five patterns matches is
  returned unchanged.
\<close>

theorem renderTemplate_substitutes:
  "(list_all wellFormed segs \<and> plainContext ctx
      \<longrightarrow> renderTemplate (templateText segs) ctx = concat (map (fill ctx) segs))
   \<and> (noPlaceholder t \<longrightarrow> renderTemplate t ctx = t)"
  using renderTemplate_segments [of segs ctx] renderTemplate_noPlaceholder [of t ctx] by blast

theorem renderTemplate_substitutes_witness:
  "list_all wellFormed exSegments \<and> plainContext exContext
   \<and> renderTemplate ''{id: {{ .ClientID }}, ns: {{.Namespace}}, x: {{ .Foo }}}'' exContext
       = ''{id: abc, ns: default, x: {{ .Foo }}}''
   \<and> noPlaceholder ''{{ .Foo }} {{ClientID}}''
   \<and> renderTemplate ''{{ .Foo }} {{ClientID}}'' nestingContext = ''{{ .Foo }} {{ClientID}}''"
proof -
  have wf: "list_all wellFormed exSegments"
    by (simp add: exSegments_def isWhiteSpace_def isNameChar_def fields_def)
  have pc: "plainContext exContext"
    by (simp add: plainContext_def plainValue_def exContext_def fields_def)
  have np: "noPlaceholder ''{{ .Foo }} {{ClientID}}''"
    by (simp add: noPlaceholder_def fields_def matchPlaceholder_def isWhiteSpace_def upt_rec)
  from renderTemplate_substitutes [of exSegments exContext "[]"]
    renderTemplate_substitutes [of "[]" nestingContext "''{{ .Foo }} {{ClientID}}''"]
    wf pc np
  show ?thesis
    by (simp add: exSegments_def templateText_def exContext_def)
qed

text \<open>
  C4 as written fails: the five replacements run one after the other on the whole string,
  so placeholder text that the client id brings in is replaced by the client secret in the
  next pass, and the result is not the client id. A value is also not copied exactly when it
  holds a replacement pattern of \<open>String.prototype.replace\<close>: \<open>$$\<close> comes out as one
  dollar sign.
\<close>

theorem renderTemplate_nested_counterexample:
  "renderTemplate ''{{ .ClientID }}'' nestingContext = ''s3cret''
   \<and> renderTemplate ''{{ .ClientID }}'' nestingContext \<noteq> ClientID nestingContext
   \<and> renderTemplate ''{{ .ClientName }}'' (exContext\<lparr>ClientName := ''Pay$$Pal''\<rparr>) = ''Pay$Pal''"
  by (simp add: renderTemplate_def nestingContext_def exContext_def matchPlaceholder_def isWhiteSpace_def)

section \<open>Running the operator\<close>

lemmas run_defs = ret_def throw_def andThen_def seq_def tryCatch_def perform_def logMsg_def
  dateNow_def mathRandom_def getConds_def setConds_def getLastGen_def setLastGen_def

lemmas eval_defs = reconcile_def watchHandler_def handleDeletion_def upsertSequence_def
  recordFailure_def shouldSkipDueToBackoff_def createCondition_def updateStatus_def
  addCondition_def upsertSecret_def deleteSecret_def addFinalizer_def removeFinalizer_def
  clientExists_def statusField_def retryAttemptOrZero_def truthy_def orElse_def
  upsertCondition_def maxRetries_def showInt_def showNat.simps Let_def FINALIZER_def

lemmas ex_defs = storageError_def calmWorld_def lateWorld_def conditionWritesFail_def
  sixthCallFails_def deleteFails_def exMetadata_def exSpec_def newClient_def readyClient_def
  stalledClient_def bumpedClient_def doomedClient_def anonymousClient_def zeroGenClient_def
  seenState_def maxRetriesPatch_def removingPatch_def releasePatch_def removalFailedCalls_def
  failedPatch_def emptyStatus_def initialState_def

lemma emits_ret: "emits Q (ret x)"
  by (simp add: emits_def ret_def)
lemma emits_throw: "emits Q (throw e)"
  by (simp add: emits_def throw_def)
lemma emits_logMsg: "emits Q (logMsg l m)"
  by (simp add: emits_def logMsg_def)
lemma emits_dateNow: "emits Q (dateNow w)"
  by (simp add: emits_def dateNow_def)
lemma emits_mathRandom: "emits Q (mathRandom w)"
  by (simp add: emits_def mathRandom_def)
lemma emits_getConds: "emits Q getConds"
  by (simp add: emits_def getConds_def)
lemma emits_setConds: "emits Q (setConds cs)"
  by (simp add: emits_def setConds_def)
lemma emits_perform: "Q c \<Longrightarrow> emits Q (perform w c)"
  by (simp add: emits_def perform_def Let_def split: outcome.splits)

lemma emits_andThen:
  assumes "emits Q m" and "\<And>x. emits Q (f x)"
  shows "emits Q (andThen m f)"
  unfolding emits_def
proof
  fix s
  from assms(1) obtain cs where m: "trace (snd (m s)) = trace s @ cs" "\<forall>c \<in> set cs. Q (fst c)"
    "lastGenByUid (snd (m s)) = lastGenByUid s"
    unfolding emits_def by blast
  show "\<exists>cs. trace (snd (andThen m f s)) = trace s @ cs \<and> (\<forall>c \<in> set cs. Q (fst c))
             \<and> lastGenByUid (snd (andThen m f s)) = lastGenByUid s"
  proof (cases "m s")
    case (Pair r s')
    show ?thesis
    proof (cases r)
      case (Inl e)
      with Pair m show ?thesis by (auto simp: andThen_def)
    next
      case (Inr x)
      from assms(2) [of x] obtain ds where f: "trace (snd (f x s')) = trace s' @ ds"
        "\<forall>c \<in> set ds. Q (fst c)" "lastGenByUid (snd (f x s')) = lastGenByUid s'"
        unfolding emits_def by blast
      with Pair Inr m show ?thesis by (auto simp: andThen_def)
    qed
  qed
qed

lemma emits_seq: "emits Q m \<Longrightarrow> emits Q k \<Longrightarrow> emits Q (seq m k)"
  by (simp add: seq_def emits_andThen)

lemma emits_tryCatch:
  assumes "emits Q m" and "\<And>e. emits Q (h e)"
  shows "emits Q (tryCatch m h)"
  unfolding emits_def
proof
  fix s
  from assms(1) obtain cs where m: "trace (snd (m s)) = trace s @ cs" "\<forall>c \<in> set cs. Q (fst c)"
    "lastGenByUid (snd (m s)) = lastGenByUid s"
    unfolding emits_def by blast
  show "\<exists>cs. trace (snd (tryCatch m h s)) = trace s @ cs \<and> (\<forall>c \<in> set cs. Q (fst c))
             \<and> lastGenByUid (snd (tryCatch m h s)) = lastGenByUid s"
  proof (cases "m s")
    case (Pair r s')
    show ?thesis
    proof (cases r)
      case (Inr x)
      with Pair m show ?thesis by (auto simp: tryCatch_def)
    next
      case (Inl e)
      from assms(2) [of e] obtain ds where f: "trace (snd (h e s')) = trace s' @ ds"
        "\<forall>c \<in> set ds. Q (fst c)" "lastGenByUid (snd (h e s')) = lastGenByUid s'"
        unfolding emits_def by blast
      with Pair Inl m show ?thesis by (auto simp: tryCatch_def)
    qed
  qed
qed

lemma emits_if: "(b \<Longrightarrow> emits Q m) \<Longrightarrow> (\<not> b \<Longrightarrow> emits Q k) \<Longrightarrow> emits Q (if b then m else k)"
  by simp

lemma emits_case_option:
  "(x = None \<Longrightarrow> emits Q m) \<Longrightarrow> (\<And>y. x = Some y \<Longrightarrow> emits Q (k y))
     \<Longrightarrow> emits Q (case x of None \<Rightarrow> m | Some y \<Rightarrow> k y)"
  by (cases x) simp_all

lemma emits_mono: "emits P m \<Longrightarrow> (\<And>c. P c \<Longrightarrow> Q c) \<Longrightarrow> emits Q m"
  unfolding emits_def by blast

lemmas emits_intros = emits_ret emits_throw emits_logMsg emits_dateNow emits_mathRandom
  emits_getConds emits_setConds emits_andThen emits_seq emits_tryCatch emits_if emits_case_option

lemma emits_createCondition: "emits Q (createCondition w ty st rsn msg gen)"
  unfolding createCondition_def by (intro emits_intros)

lemma emits_updateStatus:
  assumes "\<And>st. Q (PatchStatus (name (metadata client)) (namespace (metadata client))
                    ((upd st)\<lparr>observedGeneration := generation (metadata client)\<rparr>))"
  shows "emits Q (updateStatus w client upd)"
  unfolding updateStatus_def Let_def
  by (intro emits_intros emits_perform assms)

lemma emits_addCondition:
  assumes "\<And>cs. Q (PatchStatus (name (metadata client)) (namespace (metadata client))
                    (emptyStatus\<lparr>conditions := Some cs\<rparr>))"
  shows "emits Q (addCondition w client c)"
  unfolding addCondition_def Let_def
  by (intro emits_intros emits_perform assms)

lemma emits_handleDeletion: "emits (deletionCall client) (handleDeletion w client)"
  unfolding handleDeletion_def Let_def clientExists_def deleteSecret_def removeFinalizer_def
  apply (intro emits_intros emits_perform emits_updateStatus emits_addCondition emits_createCondition)
  apply (simp_all add: deletionCall_def clientIdOnDelete_def conditionsOnly_def emptyStatus_def)
  done

lemma emits_upsertSequence: "emits (upsertCall client) (upsertSequence w client)"
  unfolding upsertSequence_def Let_def clientExists_def upsertSecret_def
  apply (intro emits_intros emits_perform emits_updateStatus emits_addCondition emits_createCondition)
  apply (auto simp add: upsertCall_def clientIdOnUpsert_def secretNameOnUpsert_def conditionsOnly_def
            emptyStatus_def split: option.splits if_splits)
  done

lemma emits_recordFailure: "emits (upsertCall client) (recordFailure w client e)"
  unfolding recordFailure_def Let_def
  apply (intro emits_intros emits_perform emits_updateStatus emits_addCondition emits_createCondition)
  apply (simp_all add: upsertCall_def conditionsOnly_def emptyStatus_def)
  done

lemma emits_shouldSkip: "emits Q (shouldSkipDueToBackoff w client)"
  unfolding shouldSkipDueToBackoff_def
  by (intro emits_intros)

lemma emits_reconcile_upsert:
  assumes "\<not> truthy (deletionTimestamp (metadata client))"
  shows "emits (upsertCall client) (reconcile w client)"
  unfolding reconcile_def Let_def addFinalizer_def using assms
  apply (simp only: if_False)
  apply (intro emits_intros emits_perform emits_updateStatus emits_addCondition emits_createCondition
           emits_upsertSequence emits_recordFailure emits_shouldSkip)
  apply (simp_all add: upsertCall_def conditionsOnly_def emptyStatus_def)
  done

lemma emits_reconcile_deletion:
  assumes "truthy (deletionTimestamp (metadata client))"
  shows "emits (deletionCall client) (reconcile w client)"
  unfolding reconcile_def Let_def using assms
  by (simp add: emits_seq emits_logMsg emits_handleDeletion)

lemma reconcile_keeps_ledger:
  assumes "\<not> truthy (deletionTimestamp (metadata client))"
  shows "lastGenByUid (snd (reconcile w client s)) = lastGenByUid s"
  using emits_reconcile_upsert [OF assms, of w] unfolding emits_def by blast

lemma reconcile_steady:
  assumes "\<not> truthy (deletionTimestamp (metadata client))"
    and "statusField phase client = Some Ready"
    and "statusField observedGeneration client = generation (metadata client)"
  shows "reconcile w client s = (Inr (), s\<lparr>logs := logs s @ [(Debug, ''Already reconciled this generation'')]\<rparr>)"
  using assms by (simp add: reconcile_def Let_def run_defs)

lemma shouldSkip_result:
  "shouldSkipDueToBackoff w client s = (Inr False, s)
   \<or> shouldSkipDueToBackoff w client s =
       (Inr True, s\<lparr>logs := logs s @ [(Debug, ''Skipping reconciliation due to backoff'')]\<rparr>)"
  by (simp add: shouldSkipDueToBackoff_def run_defs split: option.splits)

lemma shouldSkip_trace_only:
  "trace s' = trace s \<Longrightarrow> fst (shouldSkipDueToBackoff w client s') = fst (shouldSkipDueToBackoff w client s)"
  by (simp add: shouldSkipDueToBackoff_def run_defs split: option.splits)

lemma addCondition_trace:
  "trace (snd (addCondition w client c s)) =
     trace s @ [(conditionsPatch client s c, respond w (length (trace s)) (conditionsPatch client s c))]"
  by (simp add: addCondition_def conditionsPatch_def Let_def run_defs split: option.splits outcome.splits)

lemma updateStatus_trace:
  "trace (snd (updateStatus w client upd s)) =
     trace s @ [(PatchStatus (name (metadata client)) (namespace (metadata client))
                   ((upd (case status client of None \<Rightarrow> emptyStatus | Some st \<Rightarrow> st\<lparr>conditions := conds s\<rparr>))
                      \<lparr>observedGeneration := generation (metadata client)\<rparr>),
                 respond w (length (trace s))
                   (PatchStatus (name (metadata client)) (namespace (metadata client))
                   ((upd (case status client of None \<Rightarrow> emptyStatus | Some st \<Rightarrow> st\<lparr>conditions := conds s\<rparr>))
                      \<lparr>observedGeneration := generation (metadata client)\<rparr>)))]"
  by (simp add: updateStatus_def Let_def run_defs split: outcome.splits)

lemma updateStatus_run:
  "updateStatus w client (\<lambda>st. st\<lparr>phase := Some ph\<rparr>) s =
     (Inr (), s\<lparr>trace := trace s @ [(phasePatch client s ph,
                                      respond w (length (trace s)) (phasePatch client s ph))],
               logs := logs s @ [statusLog (respond w (length (trace s)) (phasePatch client s ph))]\<rparr>)"
  by (simp add: updateStatus_def phasePatch_def statusLog_def Let_def run_defs
        split: outcome.splits option.splits)

lemma addCondition_run:
  "addCondition w client c s =
     (case respond w (length (trace s)) (conditionsPatch client s c) of
        Returned v \<Rightarrow> Inr () | Threw e \<Rightarrow> Inl e,
      s\<lparr>trace := trace s @ [(conditionsPatch client s c,
                              respond w (length (trace s)) (conditionsPatch client s c))],
        conds := (case conds s of None \<Rightarrow> None
                  | Some cs \<Rightarrow> Some (upsertCondition cs c))\<rparr>)"
  by (simp add: addCondition_def conditionsPatch_def Let_def run_defs
        split: outcome.splits option.splits)

lemma conditionsPatch_logs [simp]:
  "conditionsPatch client (s\<lparr>logs := l\<rparr>) c = conditionsPatch client s c"
  "conditionsPatch client (s\<lparr>trace := t\<rparr>) c = conditionsPatch client s c"
  by (simp_all add: conditionsPatch_def)

lemma conditionsPatch_ledger [simp]:
  "conditionsPatch client (s\<lparr>lastGenByUid := g\<rparr>) c = conditionsPatch client s c"
  by (simp add: conditionsPatch_def)

lemma phasePatch_logs [simp]:
  "phasePatch client (s\<lparr>logs := l\<rparr>) ph = phasePatch client s ph"
  "phasePatch client (s\<lparr>trace := t\<rparr>) ph = phasePatch client s ph"
  by (simp_all add: phasePatch_def split: option.splits)

lemma maxRetriesCondition_frame [simp]:
  "maxRetriesCondition w client (s\<lparr>logs := l\<rparr>) = maxRetriesCondition w client s"
  "maxRetriesCondition w client (s\<lparr>conds := c\<rparr>) = maxRetriesCondition w client s"
  "maxRetriesCondition w client (s\<lparr>lastGenByUid := g\<rparr>) = maxRetriesCondition w client s"
  by (simp_all add: maxRetriesCondition_def)

lemma deletionFailureCalls_logs [simp]:
  "deletionFailureCalls w client (s\<lparr>logs := l\<rparr>) k e = deletionFailureCalls w client s k e"
  by (simp add: deletionFailureCalls_def)

lemma conditionsOnly_patch: "conditionsOnly (emptyStatus\<lparr>conditions := x\<rparr>)"
  by (simp add: conditionsOnly_def emptyStatus_def)

lemma conditionsOnly_phase: "conditionsOnly st \<Longrightarrow> phase st = None"
proof -
  assume "conditionsOnly st"
  then have "phase st = phase (emptyStatus\<lparr>conditions := conditions st\<rparr>)"
    unfolding conditionsOnly_def by (rule arg_cong)
  then show ?thesis by (simp add: emptyStatus_def)
qed

lemma idx_simps:
  "k + 3 = Suc (Suc (Suc k))" "k + 4 = Suc (Suc (Suc (Suc k)))"
  "k + 5 = Suc (Suc (Suc (Suc (Suc k))))"
  "k + 6 = Suc (Suc (Suc (Suc (Suc (Suc k)))))"
  by simp_all

lemma watchHandler_dedup:
  assumes "\<not> truthy (deletionTimestamp (metadata client))"
    and "uid (metadata client) = Some u" and "generation (metadata client) = Some g"
    and "lastGenByUid s u = Some g"
  shows "trace (snd (watchHandler w client s)) = trace s"
  using assms
  by (simp add: watchHandler_def Let_def run_defs orElse_def truthy_def)

lemma watchHandler_proceeds:
  assumes "\<not> truthy (deletionTimestamp (metadata client))"
    and "uid (metadata client) = Some u" and "u \<noteq> []"
    and "generation (metadata client) = Some g" and "lastGenByUid s u \<noteq> Some g"
  shows "watchHandler w client s =
           reconcile w client
             (s\<lparr>lastGenByUid := (lastGenByUid s)(u \<mapsto> g),
                logs := logs s @ [(Info, ''PocketIDClient created or updated'')],
                conds := statusField conditions client\<rparr>)"
  using assms by (simp add: watchHandler_def Let_def run_defs truthy_def orElse_def)

lemma reconcile_deletes:
  "truthy (deletionTimestamp (metadata client)) \<Longrightarrow>
     reconcile w client s =
       handleDeletion w client (s\<lparr>logs := logs s @ [(Info, ''PocketIDClient is being deleted'')]\<rparr>)"
  by (simp add: reconcile_def Let_def seq_def andThen_def logMsg_def)

section \<open>The steady state\<close>

text \<open>
  C7. For a resource without deletion marker whose phase is \<open>Ready\<close> and whose
  \<open>status.observedGeneration\<close> equals \<open>metadata.generation\<close>, neither \<open>reconcile\<close> nor the
  watch handler sends any request: no call to the external service, no status write.
\<close>

theorem steady_state_no_calls:
  assumes "\<not> truthy (deletionTimestamp (metadata client))"
    and "statusField phase client = Some Ready"
    and "statusField observedGeneration client = generation (metadata client)"
  shows "trace (snd (reconcile w client s)) = trace s
       \<and> trace (snd (watchHandler w client s)) = trace s"
  using assms
  by (simp add: reconcile_steady watchHandler_def Let_def run_defs split: option.splits)

theorem steady_state_no_calls_witness:
  "trace (snd (reconcile calmWorld readyClient (initialState readyClient))) = []
   \<and> trace (snd (watchHandler calmWorld readyClient (initialState readyClient))) = []"
  using steady_state_no_calls [of readyClient calmWorld "initialState readyClient"]
  by (simp add: ex_defs truthy_def statusField_def)

section \<open>The entry gate of the watch handler\<close>

text \<open>
  C10. An event without deletion marker whose resource has no UID (or an empty one), or
  whose \<open>metadata.generation\<close> is undefined, leaves the whole state as it was: no entry in
  \<open>lastGenByUid\<close>, no request, no log line. Generation 0 is not such a case: when
  \<open>lastGenByUid\<close> does not hold 0 for the UID, the handler records 0 there and runs
  \<open>reconcile\<close>.
\<close>

theorem watchHandler_incomplete_events:
  "(\<not> truthy (deletionTimestamp (metadata client))
      \<and> (\<not> truthy (uid (metadata client)) \<or> generation (metadata client) = None)
     \<longrightarrow> watchHandler w client s = (Inr (), s))
   \<and> (\<not> truthy (deletionTimestamp (metadata client)) \<and> uid (metadata client) = Some u \<and> u \<noteq> []
      \<and> generation (metadata client) = Some 0 \<and> lastGenByUid s u \<noteq> Some 0
     \<longrightarrow> watchHandler w client s =
            reconcile w client
              (s\<lparr>lastGenByUid := (lastGenByUid s)(u \<mapsto> 0),
                 logs := logs s @ [(Info, ''PocketIDClient created or updated'')],
                 conds := statusField conditions client\<rparr>)
         \<and> lastGenByUid (snd (watchHandler w client s)) = (lastGenByUid s)(u \<mapsto> 0))"
proof (intro conjI impI)
  assume "\<not> truthy (deletionTimestamp (metadata client))
      \<and> (\<not> truthy (uid (metadata client)) \<or> generation (metadata client) = None)"
  then show "watchHandler w client s = (Inr (), s)"
    by (auto simp add: watchHandler_def Let_def run_defs split: option.splits)
next
  assume h: "\<not> truthy (deletionTimestamp (metadata client)) \<and> uid (metadata client) = Some u \<and> u \<noteq> []
      \<and> generation (metadata client) = Some 0 \<and> lastGenByUid s u \<noteq> Some 0"
  then show run: "watchHandler w client s =
            reconcile w client
              (s\<lparr>lastGenByUid := (lastGenByUid s)(u \<mapsto> 0),
                 logs := logs s @ [(Info, ''PocketIDClient created or updated'')],
                 conds := statusField conditions client\<rparr>)"
    using watchHandler_proceeds [of client u 0 s w] by simp
  from h have "lastGenByUid (snd (reconcile w client
              (s\<lparr>lastGenByUid := (lastGenByUid s)(u \<mapsto> 0),
                 logs := logs s @ [(Info, ''PocketIDClient created or updated'')],
                 conds := statusField conditions client\<rparr>))) = (lastGenByUid s)(u \<mapsto> 0)"
    by (simp add: reconcile_keeps_ledger)
  with run show "lastGenByUid (snd (watchHandler w client s)) = (lastGenByUid s)(u \<mapsto> 0)"
    by simp
qed

theorem watchHandler_incomplete_events_witness:
  "watchHandler calmWorld anonymousClient (initialState anonymousClient) = (Inr (), initialState anonymousClient)
   \<and> lastGenByUid (snd (watchHandler calmWorld zeroGenClient (initialState zeroGenClient))) ''u1'' = Some 0
   \<and> trace (snd (watchHandler calmWorld zeroGenClient (initialState zeroGenClient))) \<noteq> []"
proof -
  from watchHandler_incomplete_events [of anonymousClient calmWorld "initialState anonymousClient"]
  have a: "watchHandler calmWorld anonymousClient (initialState anonymousClient) = (Inr (), initialState anonymousClient)"
    by (simp add: anonymousClient_def exMetadata_def truthy_def)
  have pre: "\<not> truthy (deletionTimestamp (metadata zeroGenClient))
      \<and> uid (metadata zeroGenClient) = Some ''u1'' \<and> ''u1'' \<noteq> []
      \<and> generation (metadata zeroGenClient) = Some 0
      \<and> lastGenByUid (initialState zeroGenClient) ''u1'' \<noteq> Some 0"
    by (simp add: zeroGenClient_def exMetadata_def truthy_def initialState_def)
  from watchHandler_incomplete_events [of zeroGenClient calmWorld "initialState zeroGenClient" "''u1''"] pre
  have "lastGenByUid (snd (watchHandler calmWorld zeroGenClient (initialState zeroGenClient)))
          = (lastGenByUid (initialState zeroGenClient))(''u1'' \<mapsto> 0)"
    by blast
  then have b: "lastGenByUid (snd (watchHandler calmWorld zeroGenClient (initialState zeroGenClient))) ''u1'' = Some 0"
    by simp
  have c: "trace (snd (watchHandler calmWorld zeroGenClient (initialState zeroGenClient))) \<noteq> []"
    by (simp add: ex_defs eval_defs run_defs)
  from a b c show ?thesis by simp
qed

section \<open>The max-retry gate\<close>

lemma reconcile_max_retries:
  assumes "\<not> truthy (deletionTimestamp (metadata client))"
    and "maxRetries \<le> retryAttemptOrZero client"
    and "statusField phase client \<noteq> Some Ready"
    and "shouldSkipDueToBackoff w client s = (Inr False, s)"
  shows "trace (snd (reconcile w client s)) =
           trace s @ [(conditionsPatch client s (maxRetriesCondition w client s),
                       respond w (length (trace s)) (conditionsPatch client s (maxRetriesCondition w client s)))]"
  using assms
  by (simp add: reconcile_def Let_def andThen_def seq_def logMsg_def createCondition_def dateNow_def
        ret_def addCondition_trace maxRetriesCondition_def conditionsPatch_def)

lemma reconcile_backoff_skip:
  assumes "\<not> truthy (deletionTimestamp (metadata client))"
    and "statusField observedGeneration client = generation (metadata client)"
    and "fst (shouldSkipDueToBackoff w client s) = Inr True"
  shows "trace (snd (reconcile w client s)) = trace s"
  using assms shouldSkip_result [of w client s]
  by (auto simp add: reconcile_def Let_def andThen_def seq_def logMsg_def ret_def)

lemma reconcile_exhausted_cases:
  assumes "\<not> truthy (deletionTimestamp (metadata client))"
    and "maxRetries \<le> retryAttemptOrZero client"
    and "statusField observedGeneration client = generation (metadata client)"
  shows "trace (snd (reconcile w client s)) = trace s
       \<or> (statusField phase client \<noteq> Some Ready \<and> shouldSkipDueToBackoff w client s = (Inr False, s)
          \<and> trace (snd (reconcile w client s)) =
             trace s @ [(conditionsPatch client s (maxRetriesCondition w client s),
                         respond w (length (trace s)) (conditionsPatch client s (maxRetriesCondition w client s)))])"
proof (cases "statusField phase client = Some Ready")
  case True
  with assms show ?thesis by (simp add: reconcile_steady)
next
  case False
  from shouldSkip_result [of w client s] show ?thesis
  proof
    assume open_gate: "shouldSkipDueToBackoff w client s = (Inr False, s)"
    with reconcile_max_retries [OF assms(1) assms(2) False open_gate] False show ?thesis by simp
  next
    assume "shouldSkipDueToBackoff w client s =
       (Inr True, s\<lparr>logs := logs s @ [(Debug, ''Skipping reconciliation due to backoff'')]\<rparr>)"
    then have "fst (shouldSkipDueToBackoff w client s) = Inr True" by simp
    from reconcile_backoff_skip [OF assms(1) assms(3) this] show ?thesis by simp
  qed
qed

lemma watchHandler_exhausted_cases:
  assumes nodel: "\<not> truthy (deletionTimestamp (metadata client))"
    and retries: "maxRetries \<le> retryAttemptOrZero client"
    and same: "statusField observedGeneration client = generation (metadata client)"
  shows "trace (snd (watchHandler w client s)) = trace s
       \<or> (statusField phase client \<noteq> Some Ready \<and> fst (shouldSkipDueToBackoff w client s) = Inr False
          \<and> trace (snd (watchHandler w client s)) =
             trace s @ [(conditionsPatch client (delivered client s) (maxRetriesCondition w client s),
                         respond w (length (trace s))
                           (conditionsPatch client (delivered client s) (maxRetriesCondition w client s)))])"
proof (cases "\<exists>u g. uid (metadata client) = Some u \<and> u \<noteq> [] \<and> generation (metadata client) = Some g
                \<and> lastGenByUid s u \<noteq> Some g")
  case False
  with nodel show ?thesis
    by (auto simp add: watchHandler_def Let_def run_defs truthy_def orElse_def split: option.splits)
next
  case True
  then obtain u g where ug: "uid (metadata client) = Some u" "u \<noteq> []"
    "generation (metadata client) = Some g" "lastGenByUid s u \<noteq> Some g" by blast
  define s' where "s' = s\<lparr>lastGenByUid := (lastGenByUid s)(u \<mapsto> g),
                logs := logs s @ [(Info, ''PocketIDClient created or updated'')],
                conds := statusField conditions client\<rparr>"
  have run: "watchHandler w client s = reconcile w client s'"
    using watchHandler_proceeds [OF nodel ug] by (simp add: s'_def)
  have tr: "trace s' = trace s" by (simp add: s'_def)
  have skip: "fst (shouldSkipDueToBackoff w client s') = fst (shouldSkipDueToBackoff w client s)"
    using tr by (rule shouldSkip_trace_only)
  have patch: "conditionsPatch client s' c = conditionsPatch client (delivered client s) c" for c
    by (simp add: s'_def delivered_def conditionsPatch_def)
  have cond: "maxRetriesCondition w client s' = maxRetriesCondition w client s"
    by (simp add: s'_def)
  from reconcile_exhausted_cases [OF nodel retries same, of w s'] show ?thesis
  proof
    assume "trace (snd (reconcile w client s')) = trace s'"
    with run tr show ?thesis by simp
  next
    assume "statusField phase client \<noteq> Some Ready \<and> shouldSkipDueToBackoff w client s' = (Inr False, s')
          \<and> trace (snd (reconcile w client s')) =
             trace s' @ [(conditionsPatch client s' (maxRetriesCondition w client s'),
                         respond w (length (trace s')) (conditionsPatch client s' (maxRetriesCondition w client s')))]"
    with run tr skip patch cond show ?thesis by simp
  qed
qed

text \<open>
  C1 (as amended). For a resource without deletion marker whose \<open>status.retryAttempt\<close> is
  at least 10 and whose \<open>status.observedGeneration\<close> equals \<open>metadata.generation\<close>: an event
  that passes the dedup gate (\<open>lastGenByUid\<close> does not hold this generation for the UID) and
  the backoff gate, on a resource whose phase is not \<open>Ready\<close>, makes the handler send exactly
  one request, the status patch whose conditions hold \<open>Ready=False\<close> with reason
  \<open>MaxRetriesExceeded\<close>; an event that the dedup gate or the backoff gate drops sends nothing;
  and in every case the handler sends at most one request, a conditions-only status patch,
  so no call to the external service.
\<close>

theorem max_retries_gate:
  assumes nodel: "\<not> truthy (deletionTimestamp (metadata client))"
    and retries: "maxRetries \<le> retryAttemptOrZero client"
    and same: "statusField observedGeneration client = generation (metadata client)"
  shows "(uid (metadata client) = Some u \<and> u \<noteq> [] \<and> generation (metadata client) = Some g
            \<and> lastGenByUid s u \<noteq> Some g \<and> statusField phase client \<noteq> Some Ready
            \<and> fst (shouldSkipDueToBackoff w client s) = Inr False
          \<longrightarrow> trace (snd (watchHandler w client s)) =
               trace s @ [(conditionsPatch client (delivered client s) (maxRetriesCondition w client s),
                           respond w (length (trace s))
                             (conditionsPatch client (delivered client s) (maxRetriesCondition w client s)))])
       \<and> (uid (metadata client) = Some u \<and> generation (metadata client) = Some g \<and> lastGenByUid s u = Some g
          \<longrightarrow> trace (snd (watchHandler w client s)) = trace s)
       \<and> (fst (shouldSkipDueToBackoff w client s) = Inr True
          \<longrightarrow> trace (snd (watchHandler w client s)) = trace s)
       \<and> (\<exists>cs. trace (snd (watchHandler w client s)) = trace s @ cs \<and> length cs \<le> 1
             \<and> (\<forall>c \<in> set cs. \<exists>n ns st. fst c = PatchStatus n ns st \<and> conditionsOnly st))"
proof (intro conjI impI)
  assume h: "uid (metadata client) = Some u \<and> u \<noteq> [] \<and> generation (metadata client) = Some g
            \<and> lastGenByUid s u \<noteq> Some g \<and> statusField phase client \<noteq> Some Ready
            \<and> fst (shouldSkipDueToBackoff w client s) = Inr False"
  define s' where "s' = s\<lparr>lastGenByUid := (lastGenByUid s)(u \<mapsto> g),
                logs := logs s @ [(Info, ''PocketIDClient created or updated'')],
                conds := statusField conditions client\<rparr>"
  have run: "watchHandler w client s = reconcile w client s'"
    using watchHandler_proceeds [OF nodel, of u g s w] h by (simp add: s'_def)
  have tr: "trace s' = trace s" by (simp add: s'_def)
  have "fst (shouldSkipDueToBackoff w client s') = Inr False"
    using shouldSkip_trace_only [OF tr, of w client] h by simp
  with shouldSkip_result [of w client s'] have gate: "shouldSkipDueToBackoff w client s' = (Inr False, s')"
    by auto
  have patch: "conditionsPatch client s' c = conditionsPatch client (delivered client s) c" for c
    by (simp add: s'_def delivered_def conditionsPatch_def)
  have cond: "maxRetriesCondition w client s' = maxRetriesCondition w client s"
    by (simp add: s'_def)
  from reconcile_max_retries [OF nodel retries _ gate] h run tr patch cond
  show "trace (snd (watchHandler w client s)) =
               trace s @ [(conditionsPatch client (delivered client s) (maxRetriesCondition w client s),
                           respond w (length (trace s))
                             (conditionsPatch client (delivered client s) (maxRetriesCondition w client s)))]"
    by simp
next
  assume "uid (metadata client) = Some u \<and> generation (metadata client) = Some g \<and> lastGenByUid s u = Some g"
  with watchHandler_dedup [OF nodel, of u g s w]
  show "trace (snd (watchHandler w client s)) = trace s" by simp
next
  assume "fst (shouldSkipDueToBackoff w client s) = Inr True"
  with watchHandler_exhausted_cases [OF nodel retries same, of w s]
  show "trace (snd (watchHandler w client s)) = trace s" by auto
next
  from watchHandler_exhausted_cases [OF nodel retries same, of w s]
  show "\<exists>cs. trace (snd (watchHandler w client s)) = trace s @ cs \<and> length cs \<le> 1
             \<and> (\<forall>c \<in> set cs. \<exists>n ns st. fst c = PatchStatus n ns st \<and> conditionsOnly st)"
  proof
    assume "trace (snd (watchHandler w client s)) = trace s"
    then show ?thesis by simp
  next
    assume "statusField phase client \<noteq> Some Ready \<and> fst (shouldSkipDueToBackoff w client s) = Inr False
          \<and> trace (snd (watchHandler w client s)) =
             trace s @ [(conditionsPatch client (delivered client s) (maxRetriesCondition w client s),
                         respond w (length (trace s))
                           (conditionsPatch client (delivered client s) (maxRetriesCondition w client s)))]"
    then show ?thesis
      by (simp add: conditionsPatch_def conditionsOnly_patch)
  qed
qed

theorem max_retries_gate_witness:
  "map fst (trace (snd (watchHandler lateWorld stalledClient (initialState stalledClient)))) = [maxRetriesPatch 2]
   \<and> trace (snd (watchHandler lateWorld stalledClient (seenState stalledClient))) = []
   \<and> trace (snd (watchHandler calmWorld stalledClient (initialState stalledClient))) = []"
proof -
  have nodel: "\<not> truthy (deletionTimestamp (metadata stalledClient))"
    by (simp add: ex_defs truthy_def)
  have retries: "maxRetries \<le> retryAttemptOrZero stalledClient"
    by (simp add: ex_defs maxRetries_def retryAttemptOrZero_def statusField_def)
  have same: "statusField observedGeneration stalledClient = generation (metadata stalledClient)"
    by (simp add: ex_defs statusField_def)
  have gate_open: "fst (shouldSkipDueToBackoff lateWorld stalledClient (initialState stalledClient)) = Inr False"
    by (simp add: ex_defs shouldSkipDueToBackoff_def statusField_def truthy_def orElse_def run_defs)
  have gate_shut: "fst (shouldSkipDueToBackoff calmWorld stalledClient (initialState stalledClient)) = Inr True"
    by (simp add: ex_defs shouldSkipDueToBackoff_def statusField_def truthy_def orElse_def run_defs)
  from max_retries_gate [OF nodel retries same, of "''u1''" 2 "initialState stalledClient" lateWorld] gate_open
  have a: "map fst (trace (snd (watchHandler lateWorld stalledClient (initialState stalledClient))))
             = [maxRetriesPatch 2]"
    by (simp add: ex_defs conditionsPatch_def maxRetriesCondition_def delivered_def statusField_def
          retryAttemptOrZero_def showInt_def showNat.simps upsertCondition_def)
  from max_retries_gate [OF nodel retries same, of "''u1''" 2 "seenState stalledClient" lateWorld]
  have b: "trace (snd (watchHandler lateWorld stalledClient (seenState stalledClient))) = []"
    by (simp add: ex_defs)
  from max_retries_gate [OF nodel retries same, of "''u1''" 2 "initialState stalledClient" calmWorld] gate_shut
  have c: "trace (snd (watchHandler calmWorld stalledClient (initialState stalledClient))) = []"
    by (simp add: ex_defs)
  from a b c show ?thesis by simp
qed

text \<open>
  C1 as written fails on both counts. After a spec edit (generation 3 against the observed
  generation 2) the resource with ten failures does not re-enter the normal path: the only
  request is again the \<open>MaxRetriesExceeded\<close> condition, with no finalizer, phase or external
  call. And an event with the same generation, in the process that handled that generation
  before, is dropped by the dedup gate, so no condition is recorded, even when the retry
  time has passed.
\<close>

theorem max_retries_counterexample:
  "map fst (trace (snd (watchHandler calmWorld bumpedClient (seenState bumpedClient)))) = [maxRetriesPatch 3]
   \<and> trace (snd (watchHandler lateWorld stalledClient (seenState stalledClient))) = []"
  by (simp add: ex_defs eval_defs run_defs)

section \<open>Failures of status writes\<close>

text \<open>
  C2. A failing status patch of \<open>updateStatus\<close> is swallowed: \<open>updateStatus\<close> never
  throws. A failing status patch of \<open>addCondition\<close> is not. When every conditions patch
  fails, \<open>reconcile\<close> on a new resource throws the storage error after its second request,
  the \<open>Reconciling\<close> condition, and the attempt ends there. When only the sixth request
  fails, the \<open>ClientUpdated\<close> condition, the attempt is recorded as a failure: the next
  request writes phase \<open>Failed\<close> with \<open>retryAttempt = 1\<close>.
\<close>

theorem condition_write_failure_escapes:
  "fst (updateStatus w client upd s) = Inr ()
   \<and> fst (reconcile conditionWritesFail newClient (initialState newClient)) = Inl storageError
   \<and> map fst (trace (snd (reconcile conditionWritesFail newClient (initialState newClient)))) =
      [PatchStatus ''app'' ''default'' (emptyStatus\<lparr>observedGeneration := Some 2, phase := Some Pending\<rparr>),
       PatchStatus ''app'' ''default'' (emptyStatus\<lparr>conditions := Some
         [\<lparr>c_type = ''Reconciling'', c_status = StatusTrue, c_observedGeneration = Some 2,
           c_lastTransitionTime = ''T'', c_reason = ''ReconcileStarted'',
           c_message = ''Starting reconciliation''\<rparr>]\<rparr>)]
   \<and> respond sixthCallFails 5 (map fst (trace (snd (reconcile sixthCallFails newClient (initialState newClient)))) ! 5)
       = Threw storageError
   \<and> map fst (trace (snd (reconcile sixthCallFails newClient (initialState newClient)))) ! 5
       = PatchStatus ''app'' ''default'' (emptyStatus\<lparr>conditions := Some
         [\<lparr>c_type = ''ClientUpdated'', c_status = StatusTrue, c_observedGeneration = Some 2,
           c_lastTransitionTime = ''T'', c_reason = ''UpdateSucceeded'',
           c_message = ''OIDC client app updated successfully''\<rparr>]\<rparr>)
   \<and> map fst (trace (snd (reconcile sixthCallFails newClient (initialState newClient)))) ! 6 = failedPatch"
proof (intro conjI)
  show "fst (updateStatus w client upd s) = Inr ()"
    by (simp add: updateStatus_def Let_def run_defs split: outcome.splits)
qed (simp_all add: ex_defs eval_defs run_defs failedPatch_def)

section \<open>The deletion sub-protocol\<close>

lemmas deletion_defs = handleDeletion_def createCondition_def
  clientExists_def deleteSecret_def removeFinalizer_def Let_def
  deletionFailedCondition_def releaseCall_def
  clientIdOnDelete_def secretNameOnDelete_def

lemma deletion_external_failure:
  assumes ex: "respond w (length (trace s) + 1) (GetApiOidcClients1 (clientIdOnDelete client)) = Returned v1"
    and del: "respond w (length (trace s) + 2) (DeleteApiOidcClients (clientIdOnDelete client)) = Threw e"
  shows "map fst (trace (snd (handleDeletion w client s))) =
           map fst (trace s) @
           [phasePatch client s Removing, GetApiOidcClients1 (clientIdOnDelete client),
            DeleteApiOidcClients (clientIdOnDelete client)] @
           deletionFailureCalls w client s (length (trace s) + 4) e"
  using assms
  by (simp add: deletion_defs updateStatus_run addCondition_run run_defs deletionFailureCalls_def idx_simps)

lemma deletion_secret_failure:
  assumes ex: "respond w (length (trace s) + 1) (GetApiOidcClients1 (clientIdOnDelete client)) = Returned v1"
    and del: "respond w (length (trace s) + 2) (DeleteApiOidcClients (clientIdOnDelete client)) = Returned v2"
    and sec: "respond w (length (trace s) + 3)
                (DeleteSecret (namespace (metadata client)) (secretNameOnDelete client)) = Threw e"
    and st: "e_status e \<noteq> Some 404"
  shows "map fst (trace (snd (handleDeletion w client s))) =
           map fst (trace s) @
           [phasePatch client s Removing, GetApiOidcClients1 (clientIdOnDelete client),
            DeleteApiOidcClients (clientIdOnDelete client),
            DeleteSecret (namespace (metadata client)) (secretNameOnDelete client)] @
           deletionFailureCalls w client s (length (trace s) + 5) e"
  using assms
  by (simp add: deletion_defs updateStatus_run addCondition_run run_defs deletionFailureCalls_def idx_simps)

lemma deletion_success:
  assumes fin: "FINALIZER \<in> set (case finalizers (metadata client) of None \<Rightarrow> [] | Some l \<Rightarrow> l)"
    and ex: "respond w (length (trace s) + 1) (GetApiOidcClients1 (clientIdOnDelete client)) = Returned v1"
    and del: "respond w (length (trace s) + 2) (DeleteApiOidcClients (clientIdOnDelete client)) = Returned v2"
    and sec: "respond w (length (trace s) + 3)
                (DeleteSecret (namespace (metadata client)) (secretNameOnDelete client)) = Returned v3
              \<or> (\<exists>e. respond w (length (trace s) + 3)
                (DeleteSecret (namespace (metadata client)) (secretNameOnDelete client)) = Threw e
                   \<and> e_status e = Some 404)"
  shows "map fst (trace (snd (handleDeletion w client s))) =
           map fst (trace s) @
           [phasePatch client s Removing, GetApiOidcClients1 (clientIdOnDelete client),
            DeleteApiOidcClients (clientIdOnDelete client),
            DeleteSecret (namespace (metadata client)) (secretNameOnDelete client),
            releaseCall client] @
           (case respond w (length (trace s) + 4) (releaseCall client) of
              Returned v \<Rightarrow> []
            | Threw e \<Rightarrow> deletionFailureCalls w client s (length (trace s) + 6) e)"
proof -
  from sec consider
    (ok) "respond w (length (trace s) + 3)
            (DeleteSecret (namespace (metadata client)) (secretNameOnDelete client)) = Returned v3"
    | (gone) e where "respond w (length (trace s) + 3)
            (DeleteSecret (namespace (metadata client)) (secretNameOnDelete client)) = Threw e"
        "e_status e = Some 404"
    by blast
  then show ?thesis
  proof cases
    case ok
    show ?thesis
    proof (cases "respond w (length (trace s) + 4) (releaseCall client)")
      case (Returned v)
      with fin ex del ok show ?thesis
        by (simp add: deletion_defs updateStatus_run addCondition_run run_defs
              deletionFailureCalls_def idx_simps)
    next
      case (Threw e)
      with fin ex del ok show ?thesis
        by (simp add: deletion_defs updateStatus_run addCondition_run run_defs
              deletionFailureCalls_def idx_simps)
    qed
  next
    case gone
    show ?thesis
    proof (cases "respond w (length (trace s) + 4) (releaseCall client)")
      case (Returned v)
      with fin ex del gone show ?thesis
        by (simp add: deletion_defs updateStatus_run addCondition_run run_defs
              deletionFailureCalls_def idx_simps)
    next
      case (Threw e')
      with fin ex del gone show ?thesis
        by (simp add: deletion_defs updateStatus_run addCondition_run run_defs
              deletionFailureCalls_def idx_simps)
    qed
  qed
qed

text \<open>
  C5. For a resource with a deletion marker and the finalizer, whose external object
  exists (the existence check, the second request of the run, returns): when the deletion
  of the external object returns and the deletion of the secret returns or throws with
  status 404, the requests of the run are, in this order, the \<open>Removing\<close> phase write, the
  existence check, the deletion of the external object, the deletion of the secret, and the
  release of the finalizer (followed by the \<open>RemovalFailed\<close> phase write and the
  \<open>Ready=False/DeletionFailed\<close> condition write only if the release itself throws). When the
  deletion of the external object throws, or the deletion of the secret throws with another
  status, the run goes on with exactly the \<open>RemovalFailed\<close> phase write and the
  \<open>Ready=False/DeletionFailed\<close> condition write: the finalizer release is never sent.
\<close>

theorem deletion_protocol:
  assumes marked: "truthy (deletionTimestamp (metadata client))"
    and fin: "FINALIZER \<in> set (case finalizers (metadata client) of None \<Rightarrow> [] | Some l \<Rightarrow> l)"
    and ex: "respond w (length (trace s) + 1) (GetApiOidcClients1 (clientIdOnDelete client)) = Returned v1"
  shows "(respond w (length (trace s) + 2) (DeleteApiOidcClients (clientIdOnDelete client)) = Returned v2
          \<and> (respond w (length (trace s) + 3)
                (DeleteSecret (namespace (metadata client)) (secretNameOnDelete client)) = Returned v3
              \<or> (\<exists>e. respond w (length (trace s) + 3)
                    (DeleteSecret (namespace (metadata client)) (secretNameOnDelete client)) = Threw e
                  \<and> e_status e = Some 404))
          \<longrightarrow> map fst (trace (snd (reconcile w client s))) =
               map fst (trace s) @
               [phasePatch client s Removing, GetApiOidcClients1 (clientIdOnDelete client),
                DeleteApiOidcClients (clientIdOnDelete client),
                DeleteSecret (namespace (metadata client)) (secretNameOnDelete client),
                releaseCall client] @
               (case respond w (length (trace s) + 4) (releaseCall client) of
                  Returned v \<Rightarrow> []
                | Threw e \<Rightarrow> deletionFailureCalls w client s (length (trace s) + 6) e))
       \<and> (\<forall>e. respond w (length (trace s) + 2) (DeleteApiOidcClients (clientIdOnDelete client)) = Threw e
          \<longrightarrow> map fst (trace (snd (reconcile w client s))) =
               map fst (trace s) @
               [phasePatch client s Removing, GetApiOidcClients1 (clientIdOnDelete client),
                DeleteApiOidcClients (clientIdOnDelete client)] @
               deletionFailureCalls w client s (length (trace s) + 4) e)
       \<and> (\<forall>e. respond w (length (trace s) + 2) (DeleteApiOidcClients (clientIdOnDelete client)) = Returned v2
            \<and> respond w (length (trace s) + 3)
                (DeleteSecret (namespace (metadata client)) (secretNameOnDelete client)) = Threw e
            \<and> e_status e \<noteq> Some 404
          \<longrightarrow> map fst (trace (snd (reconcile w client s))) =
               map fst (trace s) @
               [phasePatch client s Removing, GetApiOidcClients1 (clientIdOnDelete client),
                DeleteApiOidcClients (clientIdOnDelete client),
                DeleteSecret (namespace (metadata client)) (secretNameOnDelete client)] @
               deletionFailureCalls w client s (length (trace s) + 5) e)"
proof -
  define s' where "s' = s\<lparr>logs := logs s @ [(Info, ''PocketIDClient is being deleted'')]\<rparr>"
  have run: "reconcile w client s = handleDeletion w client s'"
    using reconcile_deletes [OF marked] by (simp add: s'_def)
  have tr: "trace s' = trace s" by (simp add: s'_def)
  have pp: "phasePatch client s' ph = phasePatch client s ph" for ph by (simp add: s'_def)
  have fc: "deletionFailureCalls w client s' k e = deletionFailureCalls w client s k e" for k e
    by (simp add: s'_def)
  from ex tr have ex': "respond w (length (trace s') + 1) (GetApiOidcClients1 (clientIdOnDelete client)) = Returned v1"
    by simp
  show ?thesis
  proof (intro conjI impI allI)
    assume h: "respond w (length (trace s) + 2) (DeleteApiOidcClients (clientIdOnDelete client)) = Returned v2
          \<and> (respond w (length (trace s) + 3)
                (DeleteSecret (namespace (metadata client)) (secretNameOnDelete client)) = Returned v3
              \<or> (\<exists>e. respond w (length (trace s) + 3)
                    (DeleteSecret (namespace (metadata client)) (secretNameOnDelete client)) = Threw e
                  \<and> e_status e = Some 404))"
    from deletion_success [OF fin ex', of v2 v3] h tr pp fc run
    show "map fst (trace (snd (reconcile w client s))) =
               map fst (trace s) @
               [phasePatch client s Removing, GetApiOidcClients1 (clientIdOnDelete client),
                DeleteApiOidcClients (clientIdOnDelete client),
                DeleteSecret (namespace (metadata client)) (secretNameOnDelete client),
                releaseCall client] @
               (case respond w (length (trace s) + 4) (releaseCall client) of
                  Returned v \<Rightarrow> []
                | Threw e \<Rightarrow> deletionFailureCalls w client s (length (trace s) + 6) e)"
      by (simp split: outcome.splits)
  next
    fix e
    assume "respond w (length (trace s) + 2) (DeleteApiOidcClients (clientIdOnDelete client)) = Threw e"
    with deletion_external_failure [OF ex', of e] tr pp fc run
    show "map fst (trace (snd (reconcile w client s))) =
               map fst (trace s) @
               [phasePatch client s Removing, GetApiOidcClients1 (clientIdOnDelete client),
                DeleteApiOidcClients (clientIdOnDelete client)] @
               deletionFailureCalls w client s (length (trace s) + 4) e"
      by simp
  next
    fix e
    assume "respond w (length (trace s) + 2) (DeleteApiOidcClients (clientIdOnDelete client)) = Returned v2
            \<and> respond w (length (trace s) + 3)
                (DeleteSecret (namespace (metadata client)) (secretNameOnDelete client)) = Threw e
            \<and> e_status e \<noteq> Some 404"
    with deletion_secret_failure [OF ex', of v2 e] tr pp fc run
    show "map fst (trace (snd (reconcile w client s))) =
               map fst (trace s) @
               [phasePatch client s Removing, GetApiOidcClients1 (clientIdOnDelete client),
                DeleteApiOidcClients (clientIdOnDelete client),
                DeleteSecret (namespace (metadata client)) (secretNameOnDelete client)] @
               deletionFailureCalls w client s (length (trace s) + 5) e"
      by simp
  qed
qed

theorem deletion_protocol_witness:
  "map fst (trace (snd (reconcile calmWorld doomedClient (initialState doomedClient)))) =
     [removingPatch, GetApiOidcClients1 ''app'', DeleteApiOidcClients ''app'',
      DeleteSecret ''default'' ''app-credentials'', releasePatch]
   \<and> map fst (trace (snd (reconcile deleteFails doomedClient (initialState doomedClient)))) =
     [removingPatch, GetApiOidcClients1 ''app'', DeleteApiOidcClients ''app''] @ removalFailedCalls"
proof -
  have marked: "truthy (deletionTimestamp (metadata doomedClient))"
    by (simp add: ex_defs truthy_def)
  have fin: "FINALIZER \<in> set (case finalizers (metadata doomedClient) of None \<Rightarrow> [] | Some l \<Rightarrow> l)"
    by (simp add: ex_defs)
  have ex1: "respond calmWorld (length (trace (initialState doomedClient)) + 1)
               (GetApiOidcClients1 (clientIdOnDelete doomedClient)) = Returned ''s3cret''"
    by (simp add: ex_defs)
  have ex2: "respond deleteFails (length (trace (initialState doomedClient)) + 1)
               (GetApiOidcClients1 (clientIdOnDelete doomedClient)) = Returned []"
    by (simp add: ex_defs)
  from deletion_protocol [OF marked fin ex1, of "''s3cret''" "''s3cret''"]
  have a: "map fst (trace (snd (reconcile calmWorld doomedClient (initialState doomedClient)))) =
     [removingPatch, GetApiOidcClients1 ''app'', DeleteApiOidcClients ''app'',
      DeleteSecret ''default'' ''app-credentials'', releasePatch]"
    by (simp add: ex_defs phasePatch_def releaseCall_def clientIdOnDelete_def secretNameOnDelete_def
          statusField_def orElse_def FINALIZER_def)
  from deletion_protocol [OF marked fin ex2, of "[]" "[]"]
  have b: "map fst (trace (snd (reconcile deleteFails doomedClient (initialState doomedClient)))) =
     [removingPatch, GetApiOidcClients1 ''app'', DeleteApiOidcClients ''app''] @ removalFailedCalls"
    by (simp add: ex_defs phasePatch_def conditionsPatch_def deletionFailureCalls_def
          deletionFailedCondition_def clientIdOnDelete_def secretNameOnDelete_def
          statusField_def orElse_def upsertCondition_def)
  from a b show ?thesis by simp
qed

section \<open>Status writes and the observed generation\<close>

text \<open>
  C8. The one request of \<open>updateStatus\<close> is a status patch whose \<open>observedGeneration\<close>
  is \<open>metadata.generation\<close>, whatever the partial status passed in; and in every run of
  \<open>reconcile\<close>, in every world, each status patch that writes a phase (\<open>Pending\<close>,
  \<open>Retrying\<close>, \<open>Failed\<close>, \<open>Ready\<close>, \<open>Removing\<close>, \<open>RemovalFailed\<close>) carries
  \<open>observedGeneration = metadata.generation\<close>.
\<close>

theorem status_writes_carry_generation:
  "(\<exists>st. trace (snd (updateStatus w client upd s)) =
            trace s @ [(PatchStatus (name (metadata client)) (namespace (metadata client)) st,
                        respond w (length (trace s))
                          (PatchStatus (name (metadata client)) (namespace (metadata client)) st))]
          \<and> observedGeneration st = generation (metadata client))
   \<and> emits (\<lambda>c. case c of
                 PatchStatus n ns st \<Rightarrow>
                   phase st \<noteq> None \<longrightarrow> observedGeneration st = generation (metadata client)
               | _ \<Rightarrow> True)
        (reconcile w client)"
proof
  show "\<exists>st. trace (snd (updateStatus w client upd s)) =
            trace s @ [(PatchStatus (name (metadata client)) (namespace (metadata client)) st,
                        respond w (length (trace s))
                          (PatchStatus (name (metadata client)) (namespace (metadata client)) st))]
          \<and> observedGeneration st = generation (metadata client)"
    by (rule exI [where x = "(upd (case status client of None \<Rightarrow> emptyStatus
                                     | Some st \<Rightarrow> st\<lparr>conditions := conds s\<rparr>))
                      \<lparr>observedGeneration := generation (metadata client)\<rparr>"])
       (simp add: updateStatus_trace)
next
  show "emits (\<lambda>c. case c of
                 PatchStatus n ns st \<Rightarrow>
                   phase st \<noteq> None \<longrightarrow> observedGeneration st = generation (metadata client)
               | _ \<Rightarrow> True)
        (reconcile w client)"
  proof (cases "truthy (deletionTimestamp (metadata client))")
    case True
    from emits_reconcile_deletion [OF True, of w] show ?thesis
      by (rule emits_mono) (auto simp: deletionCall_def conditionsOnly_phase split: call.splits)
  next
    case False
    from emits_reconcile_upsert [OF False, of w] show ?thesis
      by (rule emits_mono) (auto simp: upsertCall_def conditionsOnly_phase split: call.splits)
  qed
qed

theorem status_writes_carry_generation_witness:
  "emits (\<lambda>c. case c of
                 PatchStatus n ns st \<Rightarrow>
                   phase st \<noteq> None \<longrightarrow> observedGeneration st = Some 2
               | _ \<Rightarrow> True)
        (reconcile sixthCallFails newClient)
   \<and> map fst (trace (snd (reconcile sixthCallFails newClient (initialState newClient)))) ! 0
       = PatchStatus ''app'' ''default'' (emptyStatus\<lparr>observedGeneration := Some 2, phase := Some Pending\<rparr>)
   \<and> map fst (trace (snd (reconcile sixthCallFails newClient (initialState newClient)))) ! 6 = failedPatch"
proof -
  have g: "generation (metadata newClient) = Some 2"
    by (simp add: newClient_def exMetadata_def)
  from status_writes_carry_generation [of sixthCallFails newClient id "initialState newClient"]
  have a: "emits (\<lambda>c. case c of
                 PatchStatus n ns st \<Rightarrow>
                   phase st \<noteq> None \<longrightarrow> observedGeneration st = Some 2
               | _ \<Rightarrow> True)
        (reconcile sixthCallFails newClient)"
    unfolding g by (rule conjunct2)
  have b: "map fst (trace (snd (reconcile sixthCallFails newClient (initialState newClient)))) ! 0
       = PatchStatus ''app'' ''default'' (emptyStatus\<lparr>observedGeneration := Some 2, phase := Some Pending\<rparr>)"
    by (simp add: ex_defs eval_defs run_defs)
  have c: "map fst (trace (snd (reconcile sixthCallFails newClient (initialState newClient)))) ! 6 = failedPatch"
    by (simp add: ex_defs eval_defs run_defs failedPatch_def)
  from a b c show ?thesis by simp
qed

section \<open>The name of the secret\<close>

lemma handleDeletion_cong:
  assumes md: "metadata c1 = metadata c2" and st: "status c1 = status c2"
    and sid: "(case spec c1 of None \<Rightarrow> None | Some sp \<Rightarrow> s_id sp)
            = (case spec c2 of None \<Rightarrow> None | Some sp \<Rightarrow> s_id sp)"
  shows "handleDeletion w c1 = handleDeletion w c2"
proof -
  have u: "updateStatus w c1 = updateStatus w c2"
    by (intro ext) (simp add: updateStatus_def md st)
  have a: "addCondition w c1 = addCondition w c2"
    by (intro ext) (simp add: addCondition_def md)
  have r: "removeFinalizer w c1 = removeFinalizer w c2"
    by (simp only: removeFinalizer_def md)
  have f: "statusField g c1 = statusField g c2" for g :: "PocketIDClientStatus \<Rightarrow> string option"
    by (simp add: statusField_def st)
  show ?thesis
    unfolding handleDeletion_def by (simp only: md sid u a r f)
qed

text \<open>
  C9. Every secret deletion that \<open>handleDeletion\<close> sends names the secret
  \<open>status.secretName\<close>, or \<open>{name}-credentials\<close> when that is missing or empty, and
  \<open>handleDeletion\<close> never applies a secret; \<open>handleDeletion\<close> is the same program whatever
  \<open>spec.secretTemplate\<close> is; and every secret that \<open>reconcile\<close> applies on the upsert
  path is named \<open>spec.secretTemplate.name\<close>, or \<open>{name}-credentials\<close> when that is missing
  or empty. So the resource with the custom secret name \<open>custom\<close> and no status has
  \<open>app-credentials\<close> deleted.
\<close>

theorem secret_name_resolution:
  "emits (\<lambda>c. case c of
                DeleteSecret ns sn \<Rightarrow>
                  sn = orElse (statusField secretName client) (name (metadata client) @ ''-credentials'')
              | ApplySecret sec \<Rightarrow> False
              | _ \<Rightarrow> True)
     (handleDeletion w client)
   \<and> handleDeletion w (client\<lparr>spec := Some (sp\<lparr>secretTemplate := tmpl\<rparr>)\<rparr>)
       = handleDeletion w (client\<lparr>spec := Some sp\<rparr>)
   \<and> (\<not> truthy (deletionTimestamp (metadata client)) \<longrightarrow>
        emits (\<lambda>c. case c of
                ApplySecret sec \<Rightarrow>
                  sec_name sec =
                    orElse (case spec client of None \<Rightarrow> None
                            | Some sp \<Rightarrow> (case secretTemplate sp of None \<Rightarrow> None | Some t \<Rightarrow> t_name t))
                      (name (metadata client) @ ''-credentials'')
              | DeleteSecret ns sn \<Rightarrow> False
              | _ \<Rightarrow> True)
          (reconcile w client))"
proof (intro conjI impI)
  from emits_handleDeletion [of client w]
  show "emits (\<lambda>c. case c of
                DeleteSecret ns sn \<Rightarrow>
                  sn = orElse (statusField secretName client) (name (metadata client) @ ''-credentials'')
              | ApplySecret sec \<Rightarrow> False
              | _ \<Rightarrow> True)
     (handleDeletion w client)"
    by (rule emits_mono) (auto simp: deletionCall_def split: call.splits)
next
  show "handleDeletion w (client\<lparr>spec := Some (sp\<lparr>secretTemplate := tmpl\<rparr>)\<rparr>)
       = handleDeletion w (client\<lparr>spec := Some sp\<rparr>)"
    by (rule handleDeletion_cong) simp_all
next
  assume "\<not> truthy (deletionTimestamp (metadata client))"
  from emits_reconcile_upsert [OF this, of w]
  show "emits (\<lambda>c. case c of
                ApplySecret sec \<Rightarrow>
                  sec_name sec =
                    orElse (case spec client of None \<Rightarrow> None
                            | Some sp \<Rightarrow> (case secretTemplate sp of None \<Rightarrow> None | Some t \<Rightarrow> t_name t))
                      (name (metadata client) @ ''-credentials'')
              | DeleteSecret ns sn \<Rightarrow> False
              | _ \<Rightarrow> True)
          (reconcile w client)"
    by (rule emits_mono) (auto simp: upsertCall_def secretNameOnUpsert_def split: call.splits)
qed

theorem secret_name_resolution_witness:
  "emits (\<lambda>c. case c of
                DeleteSecret ns sn \<Rightarrow> sn = ''app-credentials''
              | ApplySecret sec \<Rightarrow> False
              | _ \<Rightarrow> True)
     (handleDeletion calmWorld doomedClient)
   \<and> DeleteSecret ''default'' ''app-credentials''
       \<in> set (map fst (trace (snd (handleDeletion calmWorld doomedClient (initialState doomedClient)))))
   \<and> emits (\<lambda>c. case c of
                ApplySecret sec \<Rightarrow> sec_name sec = ''custom''
              | DeleteSecret ns sn \<Rightarrow> False
              | _ \<Rightarrow> True)
          (reconcile calmWorld newClient)
   \<and> map fst (trace (snd (reconcile calmWorld newClient (initialState newClient)))) ! 6
       = ApplySecret \<lparr>sec_name = ''custom'', sec_namespace = ''default'', sec_ownerName = ''app'',
           sec_ownerUid = Some ''u1'',
           sec_stringData = [(''CLIENT_ID'', ''app''), (''CLIENT_SECRET'', ''s3cret'')]\<rparr>"
proof -
  have nodel: "\<not> truthy (deletionTimestamp (metadata newClient))"
    by (simp add: ex_defs truthy_def)
  have n1: "orElse (statusField secretName doomedClient) (name (metadata doomedClient) @ ''-credentials'')
              = ''app-credentials''"
    by (simp add: doomedClient_def exMetadata_def statusField_def orElse_def)
  have n2: "orElse (case spec newClient of None \<Rightarrow> None
                    | Some sp \<Rightarrow> (case secretTemplate sp of None \<Rightarrow> None | Some t \<Rightarrow> t_name t))
              (name (metadata newClient) @ ''-credentials'') = ''custom''"
    by (simp add: newClient_def exMetadata_def exSpec_def orElse_def)
  from secret_name_resolution [of doomedClient calmWorld]
  have a: "emits (\<lambda>c. case c of
                DeleteSecret ns sn \<Rightarrow> sn = ''app-credentials''
              | ApplySecret sec \<Rightarrow> False
              | _ \<Rightarrow> True)
     (handleDeletion calmWorld doomedClient)"
    unfolding n1 by (rule conjunct1)
  from secret_name_resolution [of newClient calmWorld] nodel
  have b: "emits (\<lambda>c. case c of
                ApplySecret sec \<Rightarrow> sec_name sec = ''custom''
              | DeleteSecret ns sn \<Rightarrow> False
              | _ \<Rightarrow> True)
          (reconcile calmWorld newClient)"
    unfolding n2 by blast
  have c: "DeleteSecret ''default'' ''app-credentials''
       \<in> set (map fst (trace (snd (handleDeletion calmWorld doomedClient (initialState doomedClient)))))"
    by (simp add: ex_defs eval_defs run_defs)
  have d: "map fst (trace (snd (reconcile calmWorld newClient (initialState newClient)))) ! 6
       = ApplySecret \<lparr>sec_name = ''custom'', sec_namespace = ''default'', sec_ownerName = ''app'',
           sec_ownerUid = Some ''u1'',
           sec_stringData = [(''CLIENT_ID'', ''app''), (''CLIENT_SECRET'', ''s3cret'')]\<rparr>"
    by (simp add: ex_defs eval_defs run_defs)
  from a b c d show ?thesis by simp
qed

end
